theory Spec2Isabelle
  imports Main "HOL-Library.Multiset" "HOL-Library.AList" "HOL-Library.Product_Lexorder"
begin

section \<open>Data model (src/types)\<close>

text \<open>
  \<^verbatim>\<open>type ReviewStage = 0 | 1 | 2 | 3 | 4 | 5 | 6\<close> is a union of seven literals and
  \<^verbatim>\<open>type MemoryStatus = 'new' | 'learning' | 'mastered'\<close> a union of three.
  Timestamps are JavaScript numbers holding epoch milliseconds; they are modelled as
  \<open>int\<close>.
\<close>

datatype ReviewStage = S0 | S1 | S2 | S3 | S4 | S5 | S6

datatype MemoryStatus = new | learning | mastered

fun stageNumber :: "ReviewStage \<Rightarrow> nat" where
  "stageNumber S0 = 0"
| "stageNumber S1 = 1"
| "stageNumber S2 = 2"
| "stageNumber S3 = 3"
| "stageNumber S4 = 4"
| "stageNumber S5 = 5"
| "stageNumber S6 = 6"

text \<open>
  \<^verbatim>\<open>(currentStage + 1) as ReviewStage\<close>: the source evaluates it only below stage 6,
  so the function has no equation for \<open>S6\<close>.
\<close>

fun stagePlusOne :: "ReviewStage \<Rightarrow> ReviewStage" where
  "stagePlusOne S0 = S1"
| "stagePlusOne S1 = S2"
| "stagePlusOne S2 = S3"
| "stagePlusOne S3 = S4"
| "stagePlusOne S4 = S5"
| "stagePlusOne S5 = S6"

fun statusText :: "MemoryStatus \<Rightarrow> string" where
  "statusText new = ''new''"
| "statusText learning = ''learning''"
| "statusText mastered = ''mastered''"

record RawWord =
  word :: string
  meaning :: string
  example :: "string option"

text \<open>
  \<open>WordProgress\<close> is what is persisted; \<open>WordEntry\<close> has the same five fields plus
  the catalog fields, so it is modelled as an extension of the former. The field
  \<^verbatim>\<open>id\<close> is called \<open>wordId\<close> here (\<open>id\<close> is the identity function of HOL).
\<close>

record WordProgress =
  wordId :: string
  reviewStage :: ReviewStage
  nextReviewAt :: int
  memoryStatus :: MemoryStatus
  lastReviewedAt :: "int option"

record WordEntry = WordProgress +
  word :: string
  meaning :: string
  example :: "string option"
  addedDate :: string

fun REVIEW_INTERVALS :: "ReviewStage \<Rightarrow> int" where
  "REVIEW_INTERVALS S0 = 1"
| "REVIEW_INTERVALS S1 = 1"
| "REVIEW_INTERVALS S2 = 2"
| "REVIEW_INTERVALS S3 = 4"
| "REVIEW_INTERVALS S4 = 7"
| "REVIEW_INTERVALS S5 = 15"
| "REVIEW_INTERVALS S6 = 30"

section \<open>The calendar of the built-in Date\<close>

text \<open>
  The source reads the calendar through \<^verbatim>\<open>Date\<close>. The functions below are the ones of
  the ECMAScript definition of \<^verbatim>\<open>Date\<close>: the day number of the first day of a year, the
  leap years, and \<^verbatim>\<open>MakeDay(year, month, date)\<close>, which accepts a month index outside
  0..11 and a date outside the month and carries them over.
\<close>

definition DAY_MS :: int where
  "DAY_MS = 24 * 60 * 60 * 1000"

definition DayFromYear :: "int \<Rightarrow> int" where
  "DayFromYear y =
     365 * (y - 1970) + (y - 1969) div 4 - (y - 1901) div 100 + (y - 1601) div 400"

definition InLeapYear :: "int \<Rightarrow> bool" where
  "InLeapYear y = (y mod 4 = 0 \<and> (y mod 100 \<noteq> 0 \<or> y mod 400 = 0))"

definition DaysInYear :: "int \<Rightarrow> int" where
  "DaysInYear y = (if InLeapYear y then 366 else 365)"

definition DaysInMonth :: "int \<Rightarrow> int \<Rightarrow> int" where
  "DaysInMonth y mn =
     (if mn = 1 then (if InLeapYear y then 29 else 28)
      else if mn = 3 \<or> mn = 5 \<or> mn = 8 \<or> mn = 10 then 30 else 31)"

definition DaysBeforeMonth :: "int \<Rightarrow> int \<Rightarrow> int" where
  "DaysBeforeMonth y mn =
     (if mn = 0 then 0 else if mn = 1 then 31
      else (if InLeapYear y then 1 else 0) +
        (if mn = 2 then 59 else if mn = 3 then 90 else if mn = 4 then 120
         else if mn = 5 then 151 else if mn = 6 then 181 else if mn = 7 then 212
         else if mn = 8 then 243 else if mn = 9 then 273 else if mn = 10 then 304
         else 334))"

definition MakeDay :: "int \<Rightarrow> int \<Rightarrow> int \<Rightarrow> int" where
  "MakeDay year month date =
     (let ym = year + month div 12; mn = month mod 12
      in DayFromYear ym + DaysBeforeMonth ym mn + date - 1)"

text \<open>A calendar date is a triple (year, month 1..12, day of the month).\<close>

type_synonym ymd = "int \<times> int \<times> int"

fun validDate :: "ymd \<Rightarrow> bool" where
  "validDate (y, m, d) = (1 \<le> m \<and> m \<le> 12 \<and> 1 \<le> d \<and> d \<le> DaysInMonth y (m - 1))"

text \<open>The calendar day immediately after a date.\<close>

fun nextDay :: "ymd \<Rightarrow> ymd" where
  "nextDay (y, m, d) =
     (if d < DaysInMonth y (m - 1) then (y, m, d + 1)
      else if m < 12 then (y, m + 1, 1)
      else (y + 1, 1, 1))"

fun epochDay :: "ymd \<Rightarrow> int" where
  "epochDay (y, m, d) = MakeDay y (m - 1) d"

text \<open>
  \<^verbatim>\<open>new Date(text)\<close> for a date-only text \<^verbatim>\<open>YYYY-MM-DD\<close>, the form that
  \<^verbatim>\<open>toISOString().split('T')[0]\<close> produces: the time value of midnight UTC of that
  day. A text of another form, or one that names no day of the calendar, is an invalid
  date here (its time value is NaN, modelled as \<open>None\<close>); engines differ on some of
  those texts, and no theorem below depends on them.
\<close>

definition digitValue :: "char \<Rightarrow> int option" where
  "digitValue c =
     map_of [(CHR ''0'', 0), (CHR ''1'', 1), (CHR ''2'', 2), (CHR ''3'', 3), (CHR ''4'', 4),
             (CHR ''5'', 5), (CHR ''6'', 6), (CHR ''7'', 7), (CHR ''8'', 8), (CHR ''9'', 9)] c"

fun digitsValue :: "int \<Rightarrow> string \<Rightarrow> int option" where
  "digitsValue acc [] = Some acc"
| "digitsValue acc (c # cs) =
     (case digitValue c of None \<Rightarrow> None | Some v \<Rightarrow> digitsValue (10 * acc + v) cs)"

fun isoDateFields :: "string \<Rightarrow> ymd option" where
  "isoDateFields [y1, y2, y3, y4, s1, m1, m2, s2, d1, d2] =
     (if s1 = CHR ''-'' \<and> s2 = CHR ''-'' then
        (case (digitsValue 0 [y1, y2, y3, y4], digitsValue 0 [m1, m2], digitsValue 0 [d1, d2]) of
           (Some y, Some m, Some d) \<Rightarrow> Some (y, m, d)
         | _ \<Rightarrow> None)
      else None)"
| "isoDateFields _ = None"

definition isoDate :: "string \<Rightarrow> ymd option" where
  "isoDate s =
     (case isoDateFields s of
        None \<Rightarrow> None
      | Some a \<Rightarrow> if validDate a then Some a else None)"

definition DateParse :: "string \<Rightarrow> int option" where
  "DateParse s = map_option (\<lambda>a. epochDay a * DAY_MS) (isoDate s)"

text \<open>Decimal text of a number, and \<^verbatim>\<open>padStart(n, '0')\<close>.\<close>

definition digitChar :: "nat \<Rightarrow> char" where
  "digitChar n = ''0123456789'' ! n"

fun decimal :: "nat \<Rightarrow> string" where
  "decimal n = (if n < 10 then [digitChar n] else decimal (n div 10) @ [digitChar (n mod 10)])"

declare decimal.simps [simp del]

definition padStart :: "nat \<Rightarrow> string \<Rightarrow> string" where
  "padStart n s = replicate (n - length s) CHR ''0'' @ s"

section \<open>Scheduler (src/services/scheduler.ts)\<close>

text \<open>
  \<^verbatim>\<open>getStartOfDay\<close> and \<^verbatim>\<open>getEndOfDay\<close> work in the local time of the host. Local
  time is modelled as UTC plus a fixed offset \<open>tz\<close> in milliseconds (a zone without
  daylight-saving transitions), so \<^verbatim>\<open>setHours(0, 0, 0, 0)\<close> removes the local time of
  day. \<^verbatim>\<open>Date.now()\<close> is the argument \<open>now\<close>.
\<close>

definition getStartOfDay :: "int \<Rightarrow> int \<Rightarrow> int" where
  "getStartOfDay tz timestamp = timestamp - (timestamp + tz) mod DAY_MS"

definition getEndOfDay :: "int \<Rightarrow> int \<Rightarrow> int" where
  "getEndOfDay tz timestamp =
     timestamp - (timestamp + tz) mod DAY_MS + (23 * 3600000 + 59 * 60000 + 59 * 1000 + 999)"

text \<open>
  A date text \<^verbatim>\<open>YYYY-MM-DD\<close> of the catalog (the name of a word file, which
  \<^verbatim>\<open>isValidDateFormat\<close> has matched against \<^verbatim>\<open>^\d{4}-\d{2}-\d{2}$\<close>) is represented
  by the three numbers that \<^verbatim>\<open>dateStr.split('-').map(Number)\<close> reads from it;
  \<open>dateText\<close> is the text itself.
\<close>

record DateString =
  year :: nat
  month :: nat
  day :: nat

definition dateText :: "DateString \<Rightarrow> string" where
  "dateText d =
     padStart 4 (decimal (year d)) @ ''-'' @ padStart 2 (decimal (month d)) @ ''-''
       @ padStart 2 (decimal (day d))"

text \<open>
  \<^verbatim>\<open>new Date(year, month - 1, day).getTime()\<close>: local midnight of that day. The
  constructor reads a year from 0 to 99 as 1900 + year.
\<close>

definition parseDateString :: "int \<Rightarrow> DateString \<Rightarrow> int" where
  "parseDateString tz dateStr =
     (let y = int (year dateStr); m = int (month dateStr); d = int (day dateStr);
          yr = (if y \<le> 99 then 1900 + y else y)
      in MakeDay yr (m - 1) d * DAY_MS - tz)"

definition calculateNextReview :: "int \<Rightarrow> ReviewStage \<Rightarrow> int \<Rightarrow> int" where
  "calculateNextReview tz currentStage baseTime =
     (let intervalDays = REVIEW_INTERVALS currentStage
      in getStartOfDay tz baseTime + intervalDays * DAY_MS)"

definition handleRemember :: "int \<Rightarrow> int \<Rightarrow> 'a WordProgress_scheme \<Rightarrow> WordProgress" where
  "handleRemember tz now w =
     (let currentStage = reviewStage w in
      if currentStage = S6 then
        \<lparr> wordId = wordId w, reviewStage = S6, nextReviewAt = nextReviewAt w,
          memoryStatus = mastered, lastReviewedAt = Some now \<rparr>
      else
        (let nextStage = stagePlusOne currentStage;
             nextReview = calculateNextReview tz nextStage now;
             status = (if nextStage = S6 then learning else learning)
         in \<lparr> wordId = wordId w, reviewStage = nextStage, nextReviewAt = nextReview,
              memoryStatus = status, lastReviewedAt = Some now \<rparr>))"

definition handleForget :: "int \<Rightarrow> int \<Rightarrow> 'a WordProgress_scheme \<Rightarrow> WordProgress" where
  "handleForget tz now w =
     (let nextReview = calculateNextReview tz S1 now
      in \<lparr> wordId = wordId w, reviewStage = S1, nextReviewAt = nextReview,
           memoryStatus = learning, lastReviewedAt = Some now \<rparr>)"

definition getTodayReviewWords :: "int \<Rightarrow> int \<Rightarrow> WordEntry list \<Rightarrow> WordEntry list" where
  "getTodayReviewWords tz now words =
     (let todayEnd = getEndOfDay tz now
      in filter (\<lambda>w. if memoryStatus w = mastered then False else nextReviewAt w \<le> todayEnd)
           words)"

definition getPriority :: "int \<Rightarrow> int \<Rightarrow> 'a WordProgress_scheme \<Rightarrow> int" where
  "getPriority todayStart todayEnd w =
     (if nextReviewAt w < todayStart then 0
      else if nextReviewAt w \<le> todayEnd then 1
      else 2)"

definition compareUrgency ::
  "int \<Rightarrow> int \<Rightarrow> 'a WordProgress_scheme \<Rightarrow> 'a WordProgress_scheme \<Rightarrow> int" where
  "compareUrgency todayStart todayEnd a b =
     (let priorityA = getPriority todayStart todayEnd a;
          priorityB = getPriority todayStart todayEnd b
      in if priorityA \<noteq> priorityB then priorityA - priorityB
         else nextReviewAt a - nextReviewAt b)"

text \<open>
  \<^verbatim>\<open>Array.prototype.sort(compare)\<close> is a stable sort: of two elements that the
  comparison does not separate, the one that came first stays first. It is modelled as
  the stable insertion sort, which puts an element in front of the first element that it
  does not follow.
\<close>

fun insertSorted :: "('a \<Rightarrow> 'a \<Rightarrow> int) \<Rightarrow> 'a \<Rightarrow> 'a list \<Rightarrow> 'a list" where
  "insertSorted compare x [] = [x]"
| "insertSorted compare x (y # ys) =
     (if compare x y \<le> 0 then x # y # ys else y # insertSorted compare x ys)"

fun arraySort :: "('a \<Rightarrow> 'a \<Rightarrow> int) \<Rightarrow> 'a list \<Rightarrow> 'a list" where
  "arraySort compare [] = []"
| "arraySort compare (x # xs) = insertSorted compare x (arraySort compare xs)"

definition sortByUrgency :: "int \<Rightarrow> int \<Rightarrow> WordEntry list \<Rightarrow> WordEntry list" where
  "sortByUrgency tz now words =
     (let todayStart = getStartOfDay tz now;
          todayEnd = getEndOfDay tz now
      in arraySort (compareUrgency todayStart todayEnd) words)"

text \<open>
  The same function on array objects, for what it does to its argument. An array object
  is a reference; the store gives the elements of every array and the number of arrays
  allocated so far, the references below that number being the ones in use.
  \<^verbatim>\<open>[...words]\<close> allocates a new array with the elements of \<open>words\<close>; \<^verbatim>\<open>sort\<close>
  sorts that new array in place and returns it.
\<close>

record ArrayStore =
  elements :: "nat \<Rightarrow> WordEntry list"
  allocated :: nat

definition sortByUrgencyRef :: "int \<Rightarrow> int \<Rightarrow> nat \<Rightarrow> ArrayStore \<Rightarrow> nat \<times> ArrayStore" where
  "sortByUrgencyRef tz now words arrays =
     (let todayStart = getStartOfDay tz now;
          todayEnd = getEndOfDay tz now;
          copy = allocated arrays;
          arrays1 = arrays\<lparr>elements := (elements arrays)(copy := elements arrays words),
                           allocated := allocated arrays + 1\<rparr>;
          arrays2 = arrays1\<lparr>elements := (elements arrays1)
                      (copy := arraySort (compareUrgency todayStart todayEnd)
                                 (elements arrays1 copy))\<rparr>
      in (copy, arrays2))"

definition calculateInitialReview :: "int \<Rightarrow> DateString \<Rightarrow> int" where
  "calculateInitialReview tz added =
     (let addedTimestamp = parseDateString tz added
      in getStartOfDay tz addedTimestamp)"

section \<open>Word loader (services/wordLoader.ts)\<close>

definition generateWordId :: "string \<Rightarrow> string \<Rightarrow> string" where
  "generateWordId date w = date @ ''_'' @ w"

definition createWordEntry :: "int \<Rightarrow> RawWord \<Rightarrow> DateString \<Rightarrow> WordEntry" where
  "createWordEntry tz rawWord date =
     (let ident = generateWordId (dateText date) (RawWord.word rawWord);
          nextReview = calculateInitialReview tz date
      in \<lparr> wordId = ident, reviewStage = S0, nextReviewAt = nextReview, memoryStatus = new,
           lastReviewedAt = None,
           word = RawWord.word rawWord, meaning = RawWord.meaning rawWord,
           example = RawWord.example rawWord, addedDate = dateText date \<rparr>)"

text \<open>
  \<^verbatim>\<open>progressMap\<close> is filled in list order, so a later record replaces an earlier one
  with the same id.
\<close>

definition progressMapOf :: "WordProgress list \<Rightarrow> (string \<rightharpoonup> WordProgress)" where
  "progressMapOf progress = foldl (\<lambda>m p. m(wordId p \<mapsto> p)) Map.empty progress"

definition mergeWithProgress ::
  "int \<Rightarrow> (RawWord \<times> DateString) list \<Rightarrow> WordProgress list \<Rightarrow> WordEntry list" where
  "mergeWithProgress tz words progress =
     (let progressMap = progressMapOf progress
      in map (\<lambda>(raw, date).
           (let ident = generateWordId (dateText date) (RawWord.word raw)
            in case progressMap ident of
                 Some existingProgress \<Rightarrow>
                   \<lparr> wordId = ident,
                     reviewStage = reviewStage existingProgress,
                     nextReviewAt = nextReviewAt existingProgress,
                     memoryStatus = memoryStatus existingProgress,
                     lastReviewedAt = lastReviewedAt existingProgress,
                     word = RawWord.word raw, meaning = RawWord.meaning raw,
                     example = RawWord.example raw, addedDate = dateText date \<rparr>
               | None \<Rightarrow> createWordEntry tz raw date)) words)"

text \<open>The record that \<^verbatim>\<open>progressMap\<close> holds for an id: the last one of the list with that id.\<close>

definition lastWithId :: "string \<Rightarrow> WordProgress list \<Rightarrow> WordProgress" where
  "lastWithId k progress = last (filter (\<lambda>p. wordId p = k) progress)"

text \<open>
  The order that \<open>compareUrgency\<close> realises: the urgency class first, then the time of
  the next review.
\<close>

definition urgencyKey :: "int \<Rightarrow> int \<Rightarrow> 'a WordProgress_scheme \<Rightarrow> int \<times> int" where
  "urgencyKey todayStart todayEnd w = (getPriority todayStart todayEnd w, nextReviewAt w)"

section \<open>Persistence (services/progress.ts)\<close>

text \<open>
  A JSON value. Numbers are the integers (all numbers the program stores are counts and
  epoch milliseconds); the entries of an object are kept in their order, the first
  entry of a key being the one that a property read finds.
\<close>

datatype json =
    JNull
  | JBool bool
  | JNum int
  | JStr string
  | JArr "json list"
  | JObj "(string \<times> json) list"

text \<open>
  A text is represented by what \<^verbatim>\<open>JSON.parse\<close> makes of it: a value, or a syntax error
  (the empty text is one of those). \<^verbatim>\<open>JSON.stringify\<close> gives the text of a value.
\<close>

datatype jsonText = Malformed | Text json

fun JSON_parse :: "jsonText \<Rightarrow> json option" where
  "JSON_parse Malformed = None"
| "JSON_parse (Text v) = Some v"

definition JSON_stringify :: "json \<Rightarrow> jsonText" where
  "JSON_stringify v = Text v"

text \<open>
  \<^verbatim>\<open>obj.key\<close> for the property names that the source reads: an own entry of an object;
  \<^verbatim>\<open>undefined\<close> (\<open>None\<close>) for a missing entry, and for an array and a primitive value,
  which have none of these names. \<^verbatim>\<open>typeof\<close> and truthiness are those of JavaScript.
\<close>

fun property :: "json \<Rightarrow> string \<Rightarrow> json option" where
  "property (JObj kvs) k = map_of kvs k"
| "property _ k = None"

fun typeof :: "json option \<Rightarrow> string" where
  "typeof None = ''undefined''"
| "typeof (Some JNull) = ''object''"
| "typeof (Some (JBool b)) = ''boolean''"
| "typeof (Some (JNum n)) = ''number''"
| "typeof (Some (JStr s)) = ''string''"
| "typeof (Some (JArr xs)) = ''object''"
| "typeof (Some (JObj kvs)) = ''object''"

fun truthy :: "json option \<Rightarrow> bool" where
  "truthy None = False"
| "truthy (Some JNull) = False"
| "truthy (Some (JBool b)) = b"
| "truthy (Some (JNum n)) = (n \<noteq> 0)"
| "truthy (Some (JStr s)) = (s \<noteq> [])"
| "truthy (Some (JArr xs)) = True"
| "truthy (Some (JObj kvs)) = True"

fun isArray :: "json option \<Rightarrow> bool" where
  "isArray (Some (JArr xs)) = True"
| "isArray _ = False"


definition DEFAULT_SETTINGS :: json where
  "DEFAULT_SETTINGS = JObj [(''voiceType'', JStr ''en-US'')]"

definition isValidProgressData :: "json \<Rightarrow> bool" where
  "isValidProgressData data =
     (if \<not> truthy (Some data) \<or> typeof (Some data) \<noteq> ''object'' then False
      else if typeof (property data ''version'') \<noteq> ''number'' then False
      else if \<not> isArray (property data ''progress'') then False
      else if \<not> truthy (property data ''stats'') \<or> typeof (property data ''stats'') \<noteq> ''object''
        then False
      else
        (case property data ''stats'' of
           None \<Rightarrow> False
         | Some stats \<Rightarrow>
            if typeof (property stats ''streakDays'') \<noteq> ''number'' then False
            else if typeof (property stats ''lastStudyDate'') \<noteq> ''string'' then False
            else if \<not> truthy (property stats ''dailyReviews'')
                    \<or> typeof (property stats ''dailyReviews'') \<noteq> ''object'' then False
            else if \<not> truthy (property data ''settings'')
                    \<or> typeof (property data ''settings'') \<noteq> ''object'' then False
            else True))"

text \<open>
  \<^verbatim>\<open>localStorage\<close> under the service's key: whether the storage can be used at all
  (\<^verbatim>\<open>isStorageAvailable\<close>), which texts \<^verbatim>\<open>setItem\<close> takes without raising
  \<^verbatim>\<open>QuotaExceededError\<close>, and the text stored, if any.
\<close>

record Storage =
  available :: bool
  accepts :: "jsonText \<Rightarrow> bool"
  item :: "jsonText option"

definition isStorageAvailable :: "Storage \<Rightarrow> bool" where
  "isStorageAvailable s = available s"

definition load :: "Storage \<Rightarrow> json option" where
  "load s =
     (if \<not> isStorageAvailable s then None
      else case item s of
        None \<Rightarrow> None
      | Some raw \<Rightarrow>
         (case JSON_parse raw of
            None \<Rightarrow> None
          | Some data \<Rightarrow> if \<not> isValidProgressData data then None else Some data))"

definition save :: "json \<Rightarrow> Storage \<Rightarrow> bool \<times> Storage" where
  "save data s =
     (if \<not> isStorageAvailable s then (False, s)
      else (let txt = JSON_stringify data
            in if accepts s txt then (True, s\<lparr>item := Some txt\<rparr>) else (False, s)))"

definition reset :: "Storage \<Rightarrow> bool \<times> Storage" where
  "reset s = (if \<not> isStorageAvailable s then (False, s) else (True, s\<lparr>item := None\<rparr>))"

text \<open>\<^verbatim>\<open>data?.settings ?? { ...DEFAULT_SETTINGS }\<close>\<close>

definition getSettings :: "Storage \<Rightarrow> json" where
  "getSettings s =
     (case load s of
        None \<Rightarrow> DEFAULT_SETTINGS
      | Some data \<Rightarrow>
         (case property data ''settings'' of
            None \<Rightarrow> DEFAULT_SETTINGS
          | Some JNull \<Rightarrow> DEFAULT_SETTINGS
          | Some v \<Rightarrow> v))"








text \<open>
  The full shape of a snapshot as the specification gives it, for comparison with
  \<open>isValidProgressData\<close>:
  \<^verbatim>\<open>{version:int, progress:[{id:string, stage:0..6, nextReviewAt:int64,
  memoryStatus:enum(new|learning|mastered), lastReviewedAt?:int64}],
  stats:{streakDays:int, lastStudyDate:"YYYY-MM-DD"|"", dailyReviews:{date:int}},
  settings:{voiceType:enum}}\<close>
  (the stage is the field \<^verbatim>\<open>reviewStage\<close> of the source).
\<close>

fun isNum :: "json option \<Rightarrow> bool" where
  "isNum (Some (JNum n)) = True"
| "isNum _ = False"

fun isStr :: "json option \<Rightarrow> bool" where
  "isStr (Some (JStr s)) = True"
| "isStr _ = False"

fun specProgressRecord :: "json \<Rightarrow> bool" where
  "specProgressRecord (JObj kvs) =
     (isStr (map_of kvs ''id'')
      \<and> (case map_of kvs ''reviewStage'' of Some (JNum n) \<Rightarrow> 0 \<le> n \<and> n \<le> 6 | _ \<Rightarrow> False)
      \<and> isNum (map_of kvs ''nextReviewAt'')
      \<and> (case map_of kvs ''memoryStatus'' of
            Some (JStr s) \<Rightarrow> s \<in> {''new'', ''learning'', ''mastered''} | _ \<Rightarrow> False)
      \<and> (case map_of kvs ''lastReviewedAt'' of None \<Rightarrow> True | Some v \<Rightarrow> isNum (Some v)))"
| "specProgressRecord _ = False"

fun specStats :: "json \<Rightarrow> bool" where
  "specStats (JObj kvs) =
     (isNum (map_of kvs ''streakDays'')
      \<and> (case map_of kvs ''lastStudyDate'' of
            Some (JStr s) \<Rightarrow> s = [] \<or> isoDate s \<noteq> None | _ \<Rightarrow> False)
      \<and> (case map_of kvs ''dailyReviews'' of
            Some (JObj days) \<Rightarrow> list_all (\<lambda>(k, v). isNum (Some v)) days | _ \<Rightarrow> False))"
| "specStats _ = False"

fun specSettings :: "json \<Rightarrow> bool" where
  "specSettings (JObj kvs) =
     (case map_of kvs ''voiceType'' of
        Some (JStr s) \<Rightarrow> s \<in> {''en-US'', ''en-GB''} | _ \<Rightarrow> False)"
| "specSettings _ = False"

fun specSnapshot :: "json \<Rightarrow> bool" where
  "specSnapshot (JObj kvs) =
     (isNum (map_of kvs ''version'')
      \<and> (case map_of kvs ''progress'' of
            Some (JArr ps) \<Rightarrow> list_all specProgressRecord ps | _ \<Rightarrow> False)
      \<and> (case map_of kvs ''stats'' of Some st \<Rightarrow> specStats st | None \<Rightarrow> False)
      \<and> (case map_of kvs ''settings'' of Some se \<Rightarrow> specSettings se | None \<Rightarrow> False))"
| "specSnapshot _ = False"

text \<open>
  A value that passes \<^verbatim>\<open>!x || typeof x !== 'object'\<close>: an object or an array.
\<close>

fun objectOrArray :: "json option \<Rightarrow> bool" where
  "objectOrArray (Some (JObj kvs)) = True"
| "objectOrArray (Some (JArr xs)) = True"
| "objectOrArray _ = False"

text \<open>
  \<^verbatim>\<open>ProgressService.updateStreakDays(data, today)\<close> works on \<^verbatim>\<open>data.stats\<close>. The day
  difference is \<^verbatim>\<open>Math.floor((todayDate.getTime() - lastDate.getTime()) / DAY)\<close>, which is
  NaN (\<open>None\<close>) when one of the two texts is no date; NaN is not \<^verbatim>\<open>=== 1\<close>.
\<close>

record Stats =
  streakDays :: int
  lastStudyDate :: string
  dailyReviews :: "(string \<times> int) list"

definition diffDaysOf :: "string \<Rightarrow> string \<Rightarrow> int option" where
  "diffDaysOf lastText todayText =
     (case (DateParse lastText, DateParse todayText) of
        (Some lastDate, Some todayDate) \<Rightarrow> Some ((todayDate - lastDate) div (24 * 60 * 60 * 1000))
      | _ \<Rightarrow> None)"

definition ProgressService_updateStreakDays ::
  "string \<Rightarrow> 'a Stats_scheme \<Rightarrow> 'a Stats_scheme" where
  "ProgressService_updateStreakDays today stats =
     (if lastStudyDate stats = [] then stats\<lparr>streakDays := 1, lastStudyDate := today\<rparr>
      else if lastStudyDate stats = today then stats
      else (let diffDays = diffDaysOf (lastStudyDate stats) today;
                stats1 = (if diffDays = Some 1
                          then stats\<lparr>streakDays := streakDays stats + 1\<rparr>
                          else stats\<lparr>streakDays := 1\<rparr>)
            in stats1\<lparr>lastStudyDate := today\<rparr>))"

section \<open>Progress store (src/stores/progress.ts)\<close>

text \<open>
  The state of the store: the statistics, the progress list, the review queue with its
  cursor, the counter of today's reviews, and the storage that \<^verbatim>\<open>progressService\<close>
  writes. The clock is read by the callers: \<open>now\<close> is \<^verbatim>\<open>Date.now()\<close> and \<open>today\<close>
  is \<^verbatim>\<open>getTodayDateString()\<close>.
\<close>

record Store = Stats +
  progressList :: "WordProgress list"
  reviewQueue :: "WordEntry list"
  currentReviewIndex :: nat
  todayReviewedCount :: int
  storage :: Storage

definition currentWord :: "Store \<Rightarrow> WordEntry option" where
  "currentWord st =
     (if length (reviewQueue st) = 0 then None
      else if currentReviewIndex st \<ge> length (reviewQueue st) then None
      else Some (reviewQueue st ! currentReviewIndex st))"

definition hasMoreWords :: "Store \<Rightarrow> bool" where
  "hasMoreWords st = (currentReviewIndex st < length (reviewQueue st))"

definition isReviewComplete :: "Store \<Rightarrow> bool" where
  "isReviewComplete st =
     (length (reviewQueue st) > 0 \<and> currentReviewIndex st \<ge> length (reviewQueue st))"

text \<open>What \<^verbatim>\<open>JSON.stringify\<close> writes for the typed parts of the snapshot.\<close>

definition jsonOfProgress :: "WordProgress \<Rightarrow> json" where
  "jsonOfProgress p =
     JObj ([(''id'', JStr (wordId p)),
            (''reviewStage'', JNum (int (stageNumber (reviewStage p)))),
            (''nextReviewAt'', JNum (nextReviewAt p)),
            (''memoryStatus'', JStr (statusText (memoryStatus p)))]
           @ (case lastReviewedAt p of None \<Rightarrow> [] | Some t \<Rightarrow> [(''lastReviewedAt'', JNum t)]))"

definition jsonOfStats :: "'a Stats_scheme \<Rightarrow> json" where
  "jsonOfStats st =
     JObj [(''streakDays'', JNum (streakDays st)),
           (''lastStudyDate'', JStr (lastStudyDate st)),
           (''dailyReviews'', JObj (map (\<lambda>(k, v). (k, JNum v)) (dailyReviews st)))]"

definition saveProgress :: "Store \<Rightarrow> bool \<times> Store" where
  "saveProgress st =
     (let data = JObj [(''version'', JNum 1),
                       (''progress'', JArr (map jsonOfProgress (progressList st))),
                       (''stats'', jsonOfStats st),
                       (''settings'', getSettings (storage st))];
          (saved, storage') = save data (storage st)
      in (saved, st\<lparr>storage := storage'\<rparr>))"

definition startReview :: "int \<Rightarrow> int \<Rightarrow> WordEntry list \<Rightarrow> Store \<Rightarrow> Store" where
  "startReview tz now words st =
     st\<lparr>reviewQueue := sortByUrgency tz now words, currentReviewIndex := 0\<rparr>"

text \<open>\<^verbatim>\<open>findIndex\<close>, with \<open>None\<close> for -1.\<close>

fun findIndex :: "('a \<Rightarrow> bool) \<Rightarrow> 'a list \<Rightarrow> nat option" where
  "findIndex P [] = None"
| "findIndex P (x # xs) = (if P x then Some 0 else map_option Suc (findIndex P xs))"

definition updateProgressList :: "WordProgress \<Rightarrow> Store \<Rightarrow> Store" where
  "updateProgressList progress st =
     (case findIndex (\<lambda>p. wordId p = wordId progress) (progressList st) of
        Some index \<Rightarrow> st\<lparr>progressList := (progressList st)[index := progress]\<rparr>
      | None \<Rightarrow> st\<lparr>progressList := progressList st @ [progress]\<rparr>)"

definition updateStreakDays :: "string \<Rightarrow> Store \<Rightarrow> Store" where
  "updateStreakDays today st =
     (if lastStudyDate st = [] then st\<lparr>streakDays := 1, lastStudyDate := today\<rparr>
      else if lastStudyDate st = today then st
      else (let diffDays = diffDaysOf (lastStudyDate st) today;
                st1 = (if diffDays = Some 1
                       then st\<lparr>streakDays := streakDays st + 1\<rparr>
                       else st\<lparr>streakDays := 1\<rparr>)
            in st1\<lparr>lastStudyDate := today\<rparr>))"

text \<open>\<^verbatim>\<open>dailyReviews[today] = (dailyReviews[today] || 0) + 1\<close>\<close>

definition updateStats :: "string \<Rightarrow> Store \<Rightarrow> Store" where
  "updateStats today st =
     (let count = (case map_of (dailyReviews st) today of
                     None \<Rightarrow> 0
                   | Some c \<Rightarrow> if c \<noteq> 0 then c else 0) + 1;
          st1 = st\<lparr>dailyReviews := AList.update today count (dailyReviews st)\<rparr>;
          st2 = st1\<lparr>todayReviewedCount := count\<rparr>
      in updateStreakDays today st2)"

definition store_handleRemember ::
  "int \<Rightarrow> int \<Rightarrow> string \<Rightarrow> Store \<Rightarrow> WordProgress option \<times> Store" where
  "store_handleRemember tz now today st =
     (case currentWord st of
        None \<Rightarrow> (None, st)
      | Some w \<Rightarrow>
         (let newProgress = handleRemember tz now w;
              st1 = updateProgressList newProgress st;
              st2 = updateStats today st1;
              st3 = snd (saveProgress st2);
              st4 = st3\<lparr>currentReviewIndex := currentReviewIndex st3 + 1\<rparr>
          in (Some newProgress, st4)))"

definition store_handleForget ::
  "int \<Rightarrow> int \<Rightarrow> string \<Rightarrow> Store \<Rightarrow> WordProgress option \<times> Store" where
  "store_handleForget tz now today st =
     (case currentWord st of
        None \<Rightarrow> (None, st)
      | Some w \<Rightarrow>
         (let newProgress = handleForget tz now w;
              st1 = updateProgressList newProgress st;
              st2 = updateStats today st1;
              st3 = snd (saveProgress st2);
              updatedWord = w\<lparr>reviewStage := reviewStage newProgress,
                              nextReviewAt := nextReviewAt newProgress,
                              memoryStatus := memoryStatus newProgress,
                              lastReviewedAt := lastReviewedAt newProgress\<rparr>;
              st4 = st3\<lparr>reviewQueue := reviewQueue st3 @ [updatedWord]\<rparr>;
              st5 = st4\<lparr>currentReviewIndex := currentReviewIndex st4 + 1\<rparr>
          in (Some newProgress, st5)))"

text \<open>
  A grading action is one of the two calls, with the clock readings of that call; a
  session is a sequence of them.
\<close>

datatype Grading = Remember | Forget

fun grade :: "int \<Rightarrow> Grading \<times> int \<times> string \<Rightarrow> Store \<Rightarrow> Store" where
  "grade tz (Remember, now, today) st = snd (store_handleRemember tz now today st)"
| "grade tz (Forget, now, today) st = snd (store_handleForget tz now today st)"

fun gradeAll :: "int \<Rightarrow> (Grading \<times> int \<times> string) list \<Rightarrow> Store \<Rightarrow> Store" where
  "gradeAll tz [] st = st"
| "gradeAll tz (g # gs) st = gradeAll tz gs (grade tz g st)"

section \<open>Sample values\<close>

text \<open>Concrete entries, stores and snapshots on which the theorems are run.\<close>

definition sampleEntry :: "string \<Rightarrow> ReviewStage \<Rightarrow> int \<Rightarrow> MemoryStatus \<Rightarrow> WordEntry" where
  "sampleEntry name stage due status =
     \<lparr> wordId = ''2026-01-11_'' @ name, reviewStage = stage, nextReviewAt = due,
       memoryStatus = status, lastReviewedAt = None,
       word = name, meaning = ''meaning'', example = None, addedDate = ''2026-01-11'' \<rparr>"

definition sampleStorage :: Storage where
  "sampleStorage = \<lparr> available = True, accepts = (\<lambda>t. True), item = None \<rparr>"

definition sampleStore :: "int \<Rightarrow> string \<Rightarrow> Store" where
  "sampleStore streak lastDay =
     \<lparr> streakDays = streak, lastStudyDate = lastDay, dailyReviews = [],
       progressList = [], reviewQueue = [], currentReviewIndex = 0, todayReviewedCount = 0,
       storage = sampleStorage \<rparr>"

text \<open>
  10:00 UTC of 2026-01-11 in a zone eight hours east of UTC; the local day runs from
  1768060800000 to 1768147199999.
\<close>

definition sampleZone :: int where
  "sampleZone = 28800000"

definition sampleNow :: int where
  "sampleNow = 1768125600000"

definition overdueEntry :: WordEntry where
  "overdueEntry = sampleEntry ''overdue'' S1 (1768060800000 - 86400000) learning"

definition todayEntry :: WordEntry where
  "todayEntry = sampleEntry ''today'' S1 (1768060800000 + 1000) learning"

definition futureEntry :: WordEntry where
  "futureEntry = sampleEntry ''future'' S0 (1768147199999 + 86400000) new"

definition masteredEntry :: WordEntry where
  "masteredEntry = sampleEntry ''mastered'' S6 (1768060800000 - 1000) mastered"

text \<open>A session of two entries, started on an empty store, and a finished session.\<close>

definition sampleSession :: Store where
  "sampleSession = startReview sampleZone sampleNow [todayEntry, overdueEntry] (sampleStore 0 [])"

definition finishedSession :: Store where
  "finishedSession = (sampleStore 0 [])\<lparr>reviewQueue := [todayEntry], currentReviewIndex := 1\<rparr>"

text \<open>A catalog of two words of 2026-01-11, and a progress record for the first.\<close>

definition sampleDate :: DateString where
  "sampleDate = \<lparr> year = 2026, month = 1, day = 11 \<rparr>"

definition appleWord :: RawWord where
  "appleWord = \<lparr> RawWord.word = ''apple'', RawWord.meaning = ''a fruit'', RawWord.example = None \<rparr>"

definition pearWord :: RawWord where
  "pearWord = \<lparr> RawWord.word = ''pear'', RawWord.meaning = ''a fruit'', RawWord.example = None \<rparr>"

definition appleProgress :: WordProgress where
  "appleProgress =
     \<lparr> wordId = ''2026-01-11_apple'', reviewStage = S3, nextReviewAt = 1768406400000,
       memoryStatus = learning, lastReviewedAt = Some 1768125600000 \<rparr>"

text \<open>
  A snapshot as the store saves it; one whose progress list holds a number and a record
  with nothing but an id, and whose settings are empty; and one without
  \<^verbatim>\<open>stats.dailyReviews\<close>.
\<close>

definition goodSnapshot :: json where
  "goodSnapshot =
     JObj [(''version'', JNum 1),
           (''progress'', JArr [jsonOfProgress appleProgress]),
           (''stats'', JObj [(''streakDays'', JNum 3), (''lastStudyDate'', JStr ''2026-01-11''),
                             (''dailyReviews'', JObj [(''2026-01-11'', JNum 5)])]),
           (''settings'', JObj [(''voiceType'', JStr ''en-GB'')])]"

definition badSnapshot :: json where
  "badSnapshot =
     JObj [(''version'', JNum 1),
           (''progress'', JArr [JNum 7, JObj [(''id'', JStr ''2026-01-11_apple'')]]),
           (''stats'', JObj [(''streakDays'', JNum 3), (''lastStudyDate'', JStr ''2026-01-11''),
                             (''dailyReviews'', JObj [])]),
           (''settings'', JObj [])]"

definition noDailyReviews :: json where
  "noDailyReviews =
     JObj [(''version'', JNum 1),
           (''progress'', JArr []),
           (''stats'', JObj [(''streakDays'', JNum 3), (''lastStudyDate'', JStr ''2026-01-11'')]),
           (''settings'', JObj [(''voiceType'', JStr ''en-GB'')])]"

definition storageWith :: "json \<Rightarrow> Storage" where
  "storageWith v = sampleStorage\<lparr>item := Some (Text v)\<rparr>"


text \<open>A store of arrays with one array in use, at reference 0.\<close>

definition sampleArrays :: ArrayStore where
  "sampleArrays =
     \<lparr> elements = (\<lambda>r. if r = 0 then [futureEntry, masteredEntry, todayEntry] else []),
       allocated = 1 \<rparr>"

section \<open>Calendar arithmetic\<close>

text \<open>
  The day number grows by one from a day to the next, across the ends of months and
  years, and two different days of the calendar have different day numbers.
\<close>

lemma div_succ_int:
  fixes a n :: int
  assumes "0 < n"
  shows "(a + 1) div n = a div n + (if (a + 1) mod n = 0 then 1 else 0)"
proof (cases "a mod n + 1 = n")
  case True
  have "a + 1 = n * (a div n + 1) + 0"
    using True by (metis add.assoc add.right_neutral distrib_left mult.right_neutral mult_div_mod_eq)
  then have "(a + 1) div n = a div n + 1" "(a + 1) mod n = 0"
    using assms by (metis int_div_pos_eq order_refl, metis int_mod_pos_eq order_refl)
  then show ?thesis by simp
next
  case False
  have r: "0 \<le> a mod n + 1" "a mod n + 1 < n"
    using assms False pos_mod_bound [of n a] pos_mod_sign [of n a] by linarith+
  have e: "a + 1 = n * (a div n) + (a mod n + 1)" by simp
  have "(a + 1) div n = a div n" using int_div_pos_eq [OF e r] .
  moreover have "(a + 1) mod n = a mod n + 1" using int_mod_pos_eq [OF e r] .
  moreover have "a mod n + 1 \<noteq> 0" using assms pos_mod_sign [of n a] by linarith
  ultimately show ?thesis by simp
qed

lemma step4: "(y - 1968) div 4 = (y - 1969) div 4 + (if y mod 4 = 0 then 1 else 0)" for y :: int
  by presburger

lemma step100: "(y - 1900) div 100 = (y - 1901) div 100 + (if y mod 100 = 0 then 1 else 0)" for y :: int
proof -
  have "(y - 1900) mod 100 = y mod 100"
    using mod_mult_self1 [of y "-19" 100] by simp
  then show ?thesis using div_succ_int [of 100 "y - 1901"] by simp
qed

lemma step400: "(y - 1600) div 400 = (y - 1601) div 400 + (if y mod 400 = 0 then 1 else 0)" for y :: int
proof -
  have "(y - 1600) mod 400 = y mod 400"
    using mod_mult_self1 [of y "-4" 400] by simp
  then show ?thesis using div_succ_int [of 400 "y - 1601"] by simp
qed

lemma mod_0_divisor:
  fixes y :: int
  assumes "y mod b = 0" and "a dvd b"
  shows "y mod a = 0"
proof -
  have "b dvd y" using assms(1) by (rule iffD2 [OF dvd_eq_mod_eq_0])
  with assms(2) have "a dvd y" by (rule dvd_trans)
  then show ?thesis by (rule iffD1 [OF dvd_eq_mod_eq_0])
qed

lemma mod_400_100: "y mod 400 = 0 \<Longrightarrow> y mod 100 = 0" for y :: int
  by (erule mod_0_divisor) simp

lemma mod_100_4: "y mod 100 = 0 \<Longrightarrow> y mod 4 = 0" for y :: int
  by (erule mod_0_divisor) simp

lemma leap_arith:
  "(p400 \<longrightarrow> p100) \<Longrightarrow> (p100 \<longrightarrow> p4) \<Longrightarrow>
   (if p4 \<and> (\<not> p100 \<or> p400) then 366 else 365) =
     365 + (if p4 then 1 else 0) - (if p100 then 1 else 0) + (if p400 then 1 else (0::int))"
  by (cases p4; cases p100; cases p400; simp)

lemma leap_count:
  "DaysInYear y = 365 + (if y mod 4 = 0 then 1 else 0) - (if y mod 100 = 0 then 1 else 0)
      + (if y mod 400 = 0 then 1 else 0)"
proof -
  have a: "y mod 400 = 0 \<longrightarrow> y mod 100 = 0" by (intro impI mod_400_100)
  have b: "y mod 100 = 0 \<longrightarrow> y mod 4 = 0" by (intro impI mod_100_4)
  show ?thesis
    unfolding DaysInYear_def InLeapYear_def by (rule leap_arith [OF a b])
qed

lemma DayFromYear_succ: "DayFromYear (y + 1) = DayFromYear y + DaysInYear y"
proof -
  define A where "A = (y - 1969) div 4"
  define B where "B = (y - 1901) div 100"
  define C where "C = (y - 1601) div 400"
  define c4 :: int where "c4 = (if y mod 4 = 0 then 1 else 0)"
  define c100 :: int where "c100 = (if y mod 100 = 0 then 1 else 0)"
  define c400 :: int where "c400 = (if y mod 400 = 0 then 1 else 0)"
  have "DayFromYear (y + 1) =
          365 * (y - 1969) + (y - 1968) div 4 - (y - 1900) div 100 + (y - 1600) div 400"
    by (simp add: DayFromYear_def)
  then have e1: "DayFromYear (y + 1) = 365 * (y - 1969) + (A + c4) - (B + c100) + (C + c400)"
    unfolding step4 step100 step400 A_def B_def C_def c4_def c100_def c400_def .
  have e0: "DayFromYear y = 365 * (y - 1970) + A - B + C"
    unfolding DayFromYear_def A_def B_def C_def ..
  have c: "DaysInYear y = 365 + c4 - c100 + c400"
    unfolding c4_def c100_def c400_def by (rule leap_count)
  show ?thesis unfolding e1 e0 c by (simp add: algebra_simps)
qed

lemma DaysInYear_pos: "365 \<le> DaysInYear y"
  by (simp add: DaysInYear_def)

lemma DayFromYear_less:
  assumes "y < y'"
  shows "DayFromYear y + DaysInYear y \<le> DayFromYear y'"
proof -
  have "DayFromYear y + DaysInYear y \<le> DayFromYear (y + 1 + int k)" for k
  proof (induction k)
    case 0
    show ?case by (simp add: DayFromYear_succ)
  next
    case (Suc k)
    have "DayFromYear (y + 1 + int (Suc k)) = DayFromYear (y + 1 + int k) + DaysInYear (y + 1 + int k)"
      using DayFromYear_succ [of "y + 1 + int k"] by (simp add: add.commute add.left_commute)
    then show ?case using Suc DaysInYear_pos [of "y + 1 + int k"] by linarith
  qed
  from this [of "nat (y' - y - 1)"] assms show ?thesis by simp
qed

lemma month_cases:
  "1 \<le> m \<Longrightarrow> m \<le> 12 \<Longrightarrow>
   m = 1 \<or> m = 2 \<or> m = 3 \<or> m = 4 \<or> m = 5 \<or> m = 6 \<or> m = 7 \<or> m = 8 \<or> m = 9 \<or> m = 10 \<or> m = 11 \<or> m = (12::int)"
  by presburger

lemma DaysBeforeMonth_next:
  assumes "1 \<le> m" and "m < 12"
  shows "DaysBeforeMonth y m = DaysBeforeMonth y (m - 1) + DaysInMonth y (m - 1)"
proof -
  from assms month_cases [of m]
  have "m = 1 \<or> m = 2 \<or> m = 3 \<or> m = 4 \<or> m = 5 \<or> m = 6 \<or> m = 7 \<or> m = 8 \<or> m = 9
         \<or> m = 10 \<or> m = 11"
    by simp
  then show ?thesis
    by (elim disjE) (simp_all add: DaysBeforeMonth_def DaysInMonth_def)
qed

lemma DaysBeforeMonth_last:
  "DaysBeforeMonth y 11 + DaysInMonth y 11 = DaysInYear y"
  by (simp add: DaysBeforeMonth_def DaysInMonth_def DaysInYear_def)

lemma epochDay_valid:
  "1 \<le> m \<Longrightarrow> m \<le> 12 \<Longrightarrow> epochDay (y, m, d) = DayFromYear y + DaysBeforeMonth y (m - 1) + d - 1"
  by (simp add: MakeDay_def Let_def div_pos_pos_trivial mod_pos_pos_trivial)

declare epochDay.simps [simp del]

lemma epochDay_nextDay:
  assumes "validDate a"
  shows "validDate (nextDay a) \<and> epochDay (nextDay a) = epochDay a + 1"
proof -
  obtain y m d where a: "a = (y, m, d)" by (cases a)
  from assms a have v: "1 \<le> m" "m \<le> 12" "1 \<le> d" "d \<le> DaysInMonth y (m - 1)" by simp_all
  have pos: "1 \<le> DaysInMonth yy mm" for yy mm by (simp add: DaysInMonth_def)
  consider "d < DaysInMonth y (m - 1)" | "d = DaysInMonth y (m - 1)" "m < 12"
    | "d = DaysInMonth y (m - 1)" "m = 12"
    using v by linarith
  then show ?thesis
  proof cases
    case 1
    then show ?thesis using v a by (simp add: epochDay_valid)
  next
    case 2
    then show ?thesis using v a pos [of y m] DaysBeforeMonth_next [of m y]
      by (simp add: epochDay_valid)
  next
    case 3
    then show ?thesis using v a pos [of "y + 1" 0] DaysBeforeMonth_last [of y]
        DayFromYear_succ [of y]
      by (simp add: epochDay_valid DaysBeforeMonth_def)
  qed
qed


lemma DaysBeforeMonth_mono:
  assumes "1 \<le> m" and "m < m'" and "m' \<le> 12"
  shows "DaysBeforeMonth y (m - 1) + DaysInMonth y (m - 1) \<le> DaysBeforeMonth y (m' - 1)"
proof -
  have "DaysBeforeMonth y (m - 1) + DaysInMonth y (m - 1) \<le> DaysBeforeMonth y (m + int k)"
    if "m + int k < 12" for k
    using that
  proof (induction k)
    case 0
    then show ?case using assms(1) DaysBeforeMonth_next [of m y] by simp
  next
    case (Suc k)
    define j where "j = m + int k"
    have j1: "m + int (Suc k) = j + 1" by (simp add: j_def)
    have lt: "j + 1 < 12" "1 \<le> j + 1" using Suc.prems assms(1) by (simp_all add: j_def)
    have IH: "DaysBeforeMonth y (m - 1) + DaysInMonth y (m - 1) \<le> DaysBeforeMonth y j"
      using Suc.IH Suc.prems by (simp add: j_def)
    have n: "DaysBeforeMonth y (j + 1) = DaysBeforeMonth y j + DaysInMonth y j"
      using DaysBeforeMonth_next [OF lt(2) lt(1), of y] by simp
    have pos: "0 \<le> DaysInMonth y j" by (simp add: DaysInMonth_def)
    show ?case unfolding j1 using IH n pos by linarith
  qed
  from this [of "nat (m' - m - 1)"] assms show ?thesis by simp
qed

lemma epochDay_bounds:
  assumes "validDate (y, m, d)"
  shows "DayFromYear y + DaysBeforeMonth y (m - 1) \<le> epochDay (y, m, d)"
    and "epochDay (y, m, d) < DayFromYear y + DaysBeforeMonth y (m - 1) + DaysInMonth y (m - 1)"
  using assms by (simp_all add: epochDay_valid)

lemma DaysBeforeMonth_nonneg:
  assumes "1 \<le> m" and "m \<le> 12"
  shows "0 \<le> DaysBeforeMonth y (m - 1)"
  using month_cases [OF assms] by (elim disjE) (simp_all add: DaysBeforeMonth_def)

lemma DaysBeforeMonth_upper:
  assumes "1 \<le> m" and "m \<le> 12"
  shows "DaysBeforeMonth y (m - 1) + DaysInMonth y (m - 1) \<le> DaysInYear y"
proof (cases "m = 12")
  case True
  then show ?thesis using DaysBeforeMonth_last [of y] by simp
next
  case False
  then have "DaysBeforeMonth y (m - 1) + DaysInMonth y (m - 1) \<le> DaysBeforeMonth y (12 - 1)"
    using assms by (intro DaysBeforeMonth_mono) simp_all
  moreover have "0 \<le> DaysInMonth y 11" by (simp add: DaysInMonth_def)
  ultimately show ?thesis using DaysBeforeMonth_last [of y] by simp
qed

lemma epochDay_year_bounds:
  assumes "validDate (y, m, d)"
  shows "DayFromYear y \<le> epochDay (y, m, d)"
    and "epochDay (y, m, d) < DayFromYear y + DaysInYear y"
proof -
  from assms have v: "1 \<le> m" "m \<le> 12" by simp_all
  show "DayFromYear y \<le> epochDay (y, m, d)"
    using epochDay_bounds(1) [OF assms] DaysBeforeMonth_nonneg [OF v, of y] by linarith
  show "epochDay (y, m, d) < DayFromYear y + DaysInYear y"
    using epochDay_bounds(2) [OF assms] DaysBeforeMonth_upper [OF v, of y] by linarith
qed

lemma epochDay_inj:
  assumes "validDate a" and "validDate b" and "epochDay a = epochDay b"
  shows "a = b"
proof -
  obtain y m d where a: "a = (y, m, d)" by (cases a)
  obtain y' m' d' where b: "b = (y', m', d')" by (cases b)
  note va = assms(1) [unfolded a] and vb = assms(2) [unfolded b]
  note e = assms(3) [unfolded a b]
  have y: "y = y'"
  proof (rule ccontr)
    assume "y \<noteq> y'"
    then consider "y < y'" | "y' < y" by linarith
    then show False
    proof cases
      case 1
      from DayFromYear_less [OF 1] epochDay_year_bounds(2) [OF va] epochDay_year_bounds(1) [OF vb] e
      show False by linarith
    next
      case 2
      from DayFromYear_less [OF 2] epochDay_year_bounds(2) [OF vb] epochDay_year_bounds(1) [OF va] e
      show False by linarith
    qed
  qed
  from va vb have r: "1 \<le> m" "m \<le> 12" "1 \<le> m'" "m' \<le> 12" by simp_all
  have m: "m = m'"
  proof (rule ccontr)
    assume "m \<noteq> m'"
    then consider "m < m'" | "m' < m" by linarith
    then show False
    proof cases
      case 1
      from DaysBeforeMonth_mono [OF r(1) 1 r(4), of y] epochDay_bounds(2) [OF va]
        epochDay_bounds(1) [OF vb] e y
      show False by simp
    next
      case 2
      from DaysBeforeMonth_mono [OF r(3) 2 r(2), of y] epochDay_bounds(2) [OF vb]
        epochDay_bounds(1) [OF va] e y
      show False by simp
    qed
  qed
  have "d = d'" using e y m r by (simp add: epochDay_valid)
  with y m a b show ?thesis by simp
qed

lemma epochDay_succ_iff:
  assumes "validDate a" and "validDate b"
  shows "epochDay b - epochDay a = 1 \<longleftrightarrow> b = nextDay a"
proof
  assume "epochDay b - epochDay a = 1"
  then have "epochDay b = epochDay (nextDay a)"
    using epochDay_nextDay [OF assms(1)] by simp
  then show "b = nextDay a"
    using epochDay_inj [OF assms(2)] epochDay_nextDay [OF assms(1)] by blast
next
  assume "b = nextDay a"
  then show "epochDay b - epochDay a = 1"
    using epochDay_nextDay [OF assms(1)] by simp
qed

section \<open>Stage transitions\<close>

text \<open>
  Claim C2. Remembering an entry at stage \<open>s\<close> with \<open>0 \<le> s \<le> 5\<close> gives stage \<open>s + 1\<close>,
  \<open>nextReviewAt = startOfDay(now) + interval[s + 1]\<close> days and status learning;
  remembering an entry at stage 6 gives stage 6, status mastered and the entry's own
  \<open>nextReviewAt\<close>; \<open>lastReviewedAt\<close> is the current time in both cases (and the id is
  kept).
\<close>

theorem handleRemember_transition:
  fixes w :: "'a WordProgress_scheme"
  shows "(stageNumber (reviewStage w) \<le> 5 \<longrightarrow>
            stageNumber (reviewStage (handleRemember tz now w)) = stageNumber (reviewStage w) + 1
          \<and> nextReviewAt (handleRemember tz now w) =
              getStartOfDay tz now
                + REVIEW_INTERVALS (reviewStage (handleRemember tz now w)) * DAY_MS
          \<and> memoryStatus (handleRemember tz now w) = learning)
       \<and> (stageNumber (reviewStage w) = 6 \<longrightarrow>
            reviewStage (handleRemember tz now w) = S6
          \<and> memoryStatus (handleRemember tz now w) = mastered
          \<and> nextReviewAt (handleRemember tz now w) = nextReviewAt w)
       \<and> lastReviewedAt (handleRemember tz now w) = Some now
       \<and> wordId (handleRemember tz now w) = wordId w"
  by (cases "reviewStage w")
     (simp_all add: handleRemember_def calculateNextReview_def Let_def)

text \<open>
  The theorem at an entry of stage 2 and at an entry of stage 6, at 10:00 UTC of
  2026-01-11 in a zone eight hours east of UTC.
\<close>

theorem handleRemember_transition_witness:
  "stageNumber (reviewStage (sampleEntry ''a'' S2 5 learning)) \<le> 5
   \<and> reviewStage (handleRemember 28800000 1768125600000 (sampleEntry ''a'' S2 5 learning)) = S3
   \<and> nextReviewAt (handleRemember 28800000 1768125600000 (sampleEntry ''a'' S2 5 learning))
       = 1768060800000 + 4 * 86400000
   \<and> memoryStatus (handleRemember 28800000 1768125600000 (sampleEntry ''a'' S2 5 learning))
       = learning
   \<and> stageNumber (reviewStage (sampleEntry ''b'' S6 7 learning)) = 6
   \<and> reviewStage (handleRemember 28800000 1768125600000 (sampleEntry ''b'' S6 7 learning)) = S6
   \<and> memoryStatus (handleRemember 28800000 1768125600000 (sampleEntry ''b'' S6 7 learning))
       = mastered
   \<and> nextReviewAt (handleRemember 28800000 1768125600000 (sampleEntry ''b'' S6 7 learning)) = 7"
proof -
  have a: "stageNumber (reviewStage (sampleEntry ''a'' S2 5 learning)) \<le> 5"
    by (simp add: sampleEntry_def)
  have b: "stageNumber (reviewStage (sampleEntry ''b'' S6 7 learning)) = 6"
    by (simp add: sampleEntry_def)
  have s: "getStartOfDay 28800000 1768125600000 = 1768060800000"
    by (simp add: getStartOfDay_def DAY_MS_def)
  note A = handleRemember_transition [of "sampleEntry ''a'' S2 5 learning" 28800000 1768125600000]
  note B = handleRemember_transition [of "sampleEntry ''b'' S6 7 learning" 28800000 1768125600000]
  from A a have A1:
    "stageNumber (reviewStage (handleRemember 28800000 1768125600000 (sampleEntry ''a'' S2 5 learning))) = 3"
    and A2: "nextReviewAt (handleRemember 28800000 1768125600000 (sampleEntry ''a'' S2 5 learning))
       = 1768060800000 + REVIEW_INTERVALS
           (reviewStage (handleRemember 28800000 1768125600000 (sampleEntry ''a'' S2 5 learning)))
           * DAY_MS"
    and A3: "memoryStatus (handleRemember 28800000 1768125600000 (sampleEntry ''a'' S2 5 learning))
       = learning"
    by (simp_all add: s sampleEntry_def)
  from A1 have A4:
    "reviewStage (handleRemember 28800000 1768125600000 (sampleEntry ''a'' S2 5 learning)) = S3"
    by (cases "reviewStage (handleRemember 28800000 1768125600000 (sampleEntry ''a'' S2 5 learning))")
       simp_all
  from B b have B1:
    "reviewStage (handleRemember 28800000 1768125600000 (sampleEntry ''b'' S6 7 learning)) = S6"
    "memoryStatus (handleRemember 28800000 1768125600000 (sampleEntry ''b'' S6 7 learning)) = mastered"
    "nextReviewAt (handleRemember 28800000 1768125600000 (sampleEntry ''b'' S6 7 learning)) = 7"
    by (simp_all add: sampleEntry_def)
  from A2 A4 have "nextReviewAt (handleRemember 28800000 1768125600000 (sampleEntry ''a'' S2 5 learning))
       = 1768060800000 + 4 * 86400000"
    by (simp add: DAY_MS_def)
  with a b A3 A4 B1 show ?thesis by simp
qed

text \<open>
  Claim C3. Forgetting an entry, whatever its stage and status, gives stage 1,
  \<open>nextReviewAt = startOfDay(now) + interval[1]\<close> days, which is one day, and status
  learning.
\<close>

theorem handleForget_resets:
  fixes w :: "'a WordProgress_scheme"
  shows "reviewStage (handleForget tz now w) = S1
       \<and> stageNumber (reviewStage (handleForget tz now w)) = 1
       \<and> nextReviewAt (handleForget tz now w) = getStartOfDay tz now + REVIEW_INTERVALS S1 * DAY_MS
       \<and> nextReviewAt (handleForget tz now w) = getStartOfDay tz now + 86400000
       \<and> memoryStatus (handleForget tz now w) = learning
       \<and> lastReviewedAt (handleForget tz now w) = Some now
       \<and> wordId (handleForget tz now w) = wordId w"
  by (simp add: handleForget_def calculateNextReview_def DAY_MS_def)

section \<open>Streak\<close>

lemma isoDate_valid: "isoDate s = Some a \<Longrightarrow> validDate a"
  by (auto simp: isoDate_def split: option.splits if_splits)

lemma isoDate_nonempty: "isoDate s = Some a \<Longrightarrow> s \<noteq> []"
  by (auto simp: isoDate_def)

lemma diff_div_DAY: "(x * DAY_MS - y * DAY_MS) div 86400000 = x - y"
proof -
  have "x * DAY_MS - y * DAY_MS = (x - y) * 86400000"
    by (simp add: DAY_MS_def algebra_simps)
  then show ?thesis by simp
qed

lemma diffDaysOf_dates:
  assumes "isoDate l = Some a" and "isoDate t = Some b"
  shows "diffDaysOf l t = Some (epochDay b - epochDay a)"
  using assms by (simp add: diffDaysOf_def DateParse_def diff_div_DAY)

lemma diffDaysOf_one:
  assumes "isoDate l = Some a" and "isoDate t = Some b"
  shows "diffDaysOf l t = Some 1 \<longleftrightarrow> b = nextDay a"
  using diffDaysOf_dates [OF assms]
    epochDay_succ_iff [OF isoDate_valid [OF assms(1)] isoDate_valid [OF assms(2)]]
  by simp

text \<open>
  Claim C7. The streak update of a graded review, for the study date \<open>today\<close>:
  on the first study ever (no last study date) the streak becomes 1; when \<open>today\<close> is
  the last study date nothing changes; otherwise, for two dates of the calendar, the
  streak grows by exactly 1 when \<open>today\<close> is the day immediately after the last study
  date and becomes 1 when it is any other day, and \<open>today\<close> becomes the last study date.
  For a streak that is not 0 (as every streak with a last study date is), the streak
  grows by 1 if and only if \<open>today\<close> is the next day. Nothing else in the store
  changes, and the update of the progress service is the same function.
\<close>

theorem updateStreakDays_calendar:
  fixes st :: Store
  shows
    "(lastStudyDate st = [] \<longrightarrow>
        streakDays (updateStreakDays today st) = 1
      \<and> lastStudyDate (updateStreakDays today st) = today)
   \<and> (lastStudyDate st \<noteq> [] \<and> lastStudyDate st = today \<longrightarrow> updateStreakDays today st = st)
   \<and> (\<forall>a b. isoDate (lastStudyDate st) = Some a \<and> isoDate today = Some b
             \<and> lastStudyDate st \<noteq> today \<longrightarrow>
          (b = nextDay a \<longrightarrow> streakDays (updateStreakDays today st) = streakDays st + 1)
        \<and> (b \<noteq> nextDay a \<longrightarrow> streakDays (updateStreakDays today st) = 1)
        \<and> (streakDays st \<noteq> 0 \<longrightarrow>
              (streakDays (updateStreakDays today st) = streakDays st + 1 \<longleftrightarrow> b = nextDay a))
        \<and> lastStudyDate (updateStreakDays today st) = today)
   \<and> updateStreakDays today st =
        st\<lparr>streakDays := streakDays (updateStreakDays today st),
           lastStudyDate := lastStudyDate (updateStreakDays today st)\<rparr>
   \<and> ProgressService_updateStreakDays today st = updateStreakDays today st"
proof (intro conjI allI impI)
  show "updateStreakDays today st = st" if "lastStudyDate st \<noteq> [] \<and> lastStudyDate st = today"
    using that by (auto simp: updateStreakDays_def)
next
  fix a b
  assume h: "isoDate (lastStudyDate st) = Some a \<and> isoDate today = Some b
               \<and> lastStudyDate st \<noteq> today"
  then have ne: "lastStudyDate st \<noteq> []" and nt: "lastStudyDate st \<noteq> today"
    and one: "diffDaysOf (lastStudyDate st) today = Some 1 \<longleftrightarrow> b = nextDay a"
    using isoDate_nonempty diffDaysOf_one by blast+
  show "streakDays (updateStreakDays today st) = streakDays st + 1" if "b = nextDay a"
    using that ne nt one by (simp add: updateStreakDays_def Let_def)
  show "streakDays (updateStreakDays today st) = 1" if "b \<noteq> nextDay a"
    using that ne nt one by (simp add: updateStreakDays_def Let_def)
  show "(streakDays (updateStreakDays today st) = streakDays st + 1) = (b = nextDay a)"
    if "streakDays st \<noteq> 0"
    using that ne nt one by (simp add: updateStreakDays_def Let_def)
  show "lastStudyDate (updateStreakDays today st) = today"
    using ne nt by (simp add: updateStreakDays_def Let_def)
qed (simp_all add: updateStreakDays_def ProgressService_updateStreakDays_def Let_def)

text \<open>
  The theorem on a store with a streak of 3 whose last study date is 2026-01-31: a
  review on 2026-02-01 makes the streak 4, one on 2026-02-02 makes it 1, one on
  2026-01-31 changes nothing; and the first review of an empty store makes it 1.
\<close>

theorem updateStreakDays_calendar_witness:
  "streakDays (updateStreakDays ''2026-02-01'' (sampleStore 3 ''2026-01-31'')) = 4
   \<and> lastStudyDate (updateStreakDays ''2026-02-01'' (sampleStore 3 ''2026-01-31'')) = ''2026-02-01''
   \<and> streakDays (updateStreakDays ''2026-02-02'' (sampleStore 3 ''2026-01-31'')) = 1
   \<and> updateStreakDays ''2026-01-31'' (sampleStore 3 ''2026-01-31'') = sampleStore 3 ''2026-01-31''
   \<and> streakDays (updateStreakDays ''2026-02-01'' (sampleStore 0 [])) = 1"
proof -
  have l: "isoDate ''2026-01-31'' = Some (2026, 1, 31)"
    and t1: "isoDate ''2026-02-01'' = Some (2026, 2, 1)"
    and t2: "isoDate ''2026-02-02'' = Some (2026, 2, 2)"
    by (simp_all add: isoDate_def digitValue_def DaysInMonth_def InLeapYear_def)
  have n: "nextDay (2026, 1, 31) = (2026, 2, 1)"
    by (simp add: DaysInMonth_def)
  have f: "lastStudyDate (sampleStore 3 ''2026-01-31'') = ''2026-01-31''"
    "streakDays (sampleStore 3 ''2026-01-31'') = 3"
    "lastStudyDate (sampleStore 0 []) = []"
    by (simp_all add: sampleStore_def)
  note A = updateStreakDays_calendar [of "sampleStore 3 ''2026-01-31''" "''2026-02-01''"]
  note B = updateStreakDays_calendar [of "sampleStore 3 ''2026-01-31''" "''2026-02-02''"]
  note C = updateStreakDays_calendar [of "sampleStore 3 ''2026-01-31''" "''2026-01-31''"]
  note D = updateStreakDays_calendar [of "sampleStore 0 []" "''2026-02-01''"]
  from A [THEN conjunct2, THEN conjunct2, THEN conjunct1, rule_format, of "(2026, 1, 31)" "(2026, 2, 1)"]
  have a: "streakDays (updateStreakDays ''2026-02-01'' (sampleStore 3 ''2026-01-31'')) = 4"
    "lastStudyDate (updateStreakDays ''2026-02-01'' (sampleStore 3 ''2026-01-31'')) = ''2026-02-01''"
    using l t1 n f by simp_all
  from B [THEN conjunct2, THEN conjunct2, THEN conjunct1, rule_format, of "(2026, 1, 31)" "(2026, 2, 2)"]
  have b: "streakDays (updateStreakDays ''2026-02-02'' (sampleStore 3 ''2026-01-31'')) = 1"
    using l t2 n f by simp
  from C [THEN conjunct2, THEN conjunct1]
  have c: "updateStreakDays ''2026-01-31'' (sampleStore 3 ''2026-01-31'') = sampleStore 3 ''2026-01-31''"
    using f by simp
  from D [THEN conjunct1]
  have d: "streakDays (updateStreakDays ''2026-02-01'' (sampleStore 0 [])) = 1"
    using f by simp
  from a b c d show ?thesis by simp
qed

section \<open>The order of the review queue\<close>

lemma insertSorted_insort_key:
  assumes "\<And>a b. compare a b \<le> 0 \<longleftrightarrow> key a \<le> key b"
  shows "insertSorted compare x ys = insort_key key x ys"
  by (induction ys) (simp_all add: assms)

lemma arraySort_sort_key:
  assumes "\<And>a b. compare a b \<le> 0 \<longleftrightarrow> key a \<le> (key b :: 'k :: linorder)"
  shows "arraySort compare xs = sort_key key xs"
  by (induction xs) (simp_all add: insertSorted_insort_key [of compare key, OF assms])

lemma compareUrgency_key:
  "compareUrgency ts te a b \<le> 0 \<longleftrightarrow> urgencyKey ts te a \<le> urgencyKey ts te b"
  by (auto simp: compareUrgency_def urgencyKey_def Let_def)

lemma sortByUrgency_sort_key:
  "sortByUrgency tz now words =
     sort_key (urgencyKey (getStartOfDay tz now) (getEndOfDay tz now)) words"
  unfolding sortByUrgency_def Let_def
  by (rule arraySort_sort_key) (rule compareUrgency_key)

lemma mset_insertSorted: "mset (insertSorted compare x ys) = add_mset x (mset ys)"
  by (induction ys) simp_all

lemma mset_arraySort: "mset (arraySort compare xs) = mset xs"
  by (induction xs) (simp_all add: mset_insertSorted)

lemma day_start_le_end: "getStartOfDay tz now \<le> getEndOfDay tz now"
  by (simp add: getStartOfDay_def getEndOfDay_def)

lemma sorted_map_key_sorted_wrt:
  "sorted (map (urgencyKey ts te) xs) =
   sorted_wrt (\<lambda>a b. getPriority ts te a < getPriority ts te b
      \<or> (getPriority ts te a = getPriority ts te b \<and> nextReviewAt a \<le> nextReviewAt b)) xs"
proof -
  have "sorted (map (urgencyKey ts te) xs) = sorted_wrt (\<lambda>a b. urgencyKey ts te a \<le> urgencyKey ts te b) xs"
    by (simp add: sorted_wrt_map)
  also have "\<dots> = sorted_wrt (\<lambda>a b. getPriority ts te a < getPriority ts te b
      \<or> (getPriority ts te a = getPriority ts te b \<and> nextReviewAt a \<le> nextReviewAt b)) xs"
    by (rule arg_cong [where f = "\<lambda>r. sorted_wrt r xs"]) (auto simp: urgencyKey_def fun_eq_iff)
  finally show ?thesis .
qed

text \<open>
  Claim C6. With \<open>todayStart\<close> and \<open>todayEnd\<close> the start and the end of the day of
  \<open>now\<close>: the urgency classes are Overdue (\<open>nextReviewAt < todayStart\<close>), DueToday
  (\<open>todayStart \<le> nextReviewAt \<le> todayEnd\<close>) and Future (\<open>nextReviewAt > todayEnd\<close>);
  the result of \<open>sortByUrgency\<close> is ordered by class and, within a class, by
  \<open>nextReviewAt\<close> ascending; entries of the same class and the same \<open>nextReviewAt\<close> keep
  the order they had in the input (the sort is stable); and an overdue entry, an entry
  due today and a future entry come out in that order, in whatever order they went in.
\<close>

theorem sortByUrgency_order:
  fixes words :: "WordEntry list" and tz now :: int
  defines "todayStart \<equiv> getStartOfDay tz now"
      and "todayEnd \<equiv> getEndOfDay tz now"
  shows
    "(\<forall>w :: WordEntry.
        (getPriority todayStart todayEnd w = 0 \<longleftrightarrow> nextReviewAt w < todayStart)
      \<and> (getPriority todayStart todayEnd w = 1 \<longleftrightarrow>
            todayStart \<le> nextReviewAt w \<and> nextReviewAt w \<le> todayEnd)
      \<and> (getPriority todayStart todayEnd w = 2 \<longleftrightarrow> todayEnd < nextReviewAt w))
   \<and> sorted_wrt (\<lambda>a b. getPriority todayStart todayEnd a < getPriority todayStart todayEnd b
          \<or> (getPriority todayStart todayEnd a = getPriority todayStart todayEnd b
              \<and> nextReviewAt a \<le> nextReviewAt b))
        (sortByUrgency tz now words)
   \<and> (\<forall>p t. filter (\<lambda>w. getPriority todayStart todayEnd w = p \<and> nextReviewAt w = t)
               (sortByUrgency tz now words)
           = filter (\<lambda>w. getPriority todayStart todayEnd w = p \<and> nextReviewAt w = t) words)
   \<and> (\<forall>a b c. nextReviewAt a < todayStart
          \<and> todayStart \<le> nextReviewAt b \<and> nextReviewAt b \<le> todayEnd
          \<and> todayEnd < nextReviewAt c \<longrightarrow>
          sortByUrgency tz now [a, b, c] = [a, b, c]
        \<and> sortByUrgency tz now [a, c, b] = [a, b, c]
        \<and> sortByUrgency tz now [b, a, c] = [a, b, c]
        \<and> sortByUrgency tz now [b, c, a] = [a, b, c]
        \<and> sortByUrgency tz now [c, a, b] = [a, b, c]
        \<and> sortByUrgency tz now [c, b, a] = [a, b, c])"
proof (intro conjI allI impI)
  have le: "todayStart \<le> todayEnd"
    unfolding todayStart_def todayEnd_def by (rule day_start_le_end)
  fix w :: WordEntry
  show "getPriority todayStart todayEnd w = 0 \<longleftrightarrow> nextReviewAt w < todayStart"
    by (simp add: getPriority_def)
  show "getPriority todayStart todayEnd w = 1 \<longleftrightarrow>
          todayStart \<le> nextReviewAt w \<and> nextReviewAt w \<le> todayEnd"
    by (auto simp: getPriority_def)
  show "getPriority todayStart todayEnd w = 2 \<longleftrightarrow> todayEnd < nextReviewAt w"
    using le by (auto simp: getPriority_def)
next
  have "sorted (map (urgencyKey todayStart todayEnd) (sortByUrgency tz now words))"
    unfolding sortByUrgency_sort_key todayStart_def todayEnd_def by (rule sorted_sort_key)
  then show "sorted_wrt (\<lambda>a b. getPriority todayStart todayEnd a < getPriority todayStart todayEnd b
          \<or> (getPriority todayStart todayEnd a = getPriority todayStart todayEnd b
              \<and> nextReviewAt a \<le> nextReviewAt b))
        (sortByUrgency tz now words)"
    by (simp only: sorted_map_key_sorted_wrt)
next
  fix p t
  have "filter (\<lambda>w. urgencyKey todayStart todayEnd w = (p, t)) (sortByUrgency tz now words)
          = filter (\<lambda>w. urgencyKey todayStart todayEnd w = (p, t)) words"
    unfolding sortByUrgency_sort_key todayStart_def todayEnd_def by (rule sort_key_stable)
  then show "filter (\<lambda>w. getPriority todayStart todayEnd w = p \<and> nextReviewAt w = t)
               (sortByUrgency tz now words)
           = filter (\<lambda>w. getPriority todayStart todayEnd w = p \<and> nextReviewAt w = t) words"
    by (simp add: urgencyKey_def)
next
  fix a b c :: WordEntry
  assume h: "nextReviewAt a < todayStart
          \<and> todayStart \<le> nextReviewAt b \<and> nextReviewAt b \<le> todayEnd
          \<and> todayEnd < nextReviewAt c"
  then have p: "getPriority todayStart todayEnd a = 0" "getPriority todayStart todayEnd b = 1"
    "getPriority todayStart todayEnd c = 2"
    by (auto simp: getPriority_def)
  show "sortByUrgency tz now [a, b, c] = [a, b, c]"
    and "sortByUrgency tz now [a, c, b] = [a, b, c]"
    and "sortByUrgency tz now [b, a, c] = [a, b, c]"
    and "sortByUrgency tz now [b, c, a] = [a, b, c]"
    and "sortByUrgency tz now [c, a, b] = [a, b, c]"
    and "sortByUrgency tz now [c, b, a] = [a, b, c]"
    using p
    by (simp_all add: sortByUrgency_def Let_def compareUrgency_def
          todayStart_def [symmetric] todayEnd_def [symmetric])
qed

text \<open>
  The theorem on three entries due yesterday, today and tomorrow, given in the order
  tomorrow, yesterday, today.
\<close>

theorem sortByUrgency_order_witness:
  "nextReviewAt overdueEntry < getStartOfDay sampleZone sampleNow
   \<and> getStartOfDay sampleZone sampleNow \<le> nextReviewAt todayEntry
   \<and> nextReviewAt todayEntry \<le> getEndOfDay sampleZone sampleNow
   \<and> getEndOfDay sampleZone sampleNow < nextReviewAt futureEntry
   \<and> sortByUrgency sampleZone sampleNow [futureEntry, overdueEntry, todayEntry]
       = [overdueEntry, todayEntry, futureEntry]"
proof -
  have h: "nextReviewAt overdueEntry < getStartOfDay sampleZone sampleNow
      \<and> getStartOfDay sampleZone sampleNow \<le> nextReviewAt todayEntry
      \<and> nextReviewAt todayEntry \<le> getEndOfDay sampleZone sampleNow
      \<and> getEndOfDay sampleZone sampleNow < nextReviewAt futureEntry"
    by (simp add: overdueEntry_def todayEntry_def futureEntry_def sampleEntry_def
          getStartOfDay_def getEndOfDay_def sampleZone_def sampleNow_def DAY_MS_def)
  note T = sortByUrgency_order [where tz = sampleZone and now = sampleNow and words = "[]"]
  from T [THEN conjunct2, THEN conjunct2, THEN conjunct2, rule_format,
      of overdueEntry todayEntry futureEntry, OF h]
  have "sortByUrgency sampleZone sampleNow [futureEntry, overdueEntry, todayEntry]
       = [overdueEntry, todayEntry, futureEntry]"
    by simp
  with h show ?thesis by simp
qed

lemma sortByUrgencyRef_result:
  "fst (sortByUrgencyRef tz now a arrays) = allocated arrays"
  "allocated (snd (sortByUrgencyRef tz now a arrays)) = allocated arrays + 1"
  "r \<noteq> allocated arrays \<Longrightarrow>
     elements (snd (sortByUrgencyRef tz now a arrays)) r = elements arrays r"
  "elements (snd (sortByUrgencyRef tz now a arrays)) (allocated arrays)
     = sortByUrgency tz now (elements arrays a)"
  by (simp_all add: sortByUrgencyRef_def sortByUrgency_def Let_def)

text \<open>
  Claim C10. The result of \<open>sortByUrgency\<close> is a permutation of its input: the same
  entries, each as often as in the input, mastered entries included; so the queue of a
  session that \<open>startReview\<close> starts holds exactly the entries it was given, with the
  cursor at 0. On array objects, the function returns a new array, which holds the sorted
  entries, and leaves the array it was given, and every other array in use, as it was.
\<close>

theorem sortByUrgency_permutation:
  fixes words :: "WordEntry list" and st :: Store
  shows
    "mset (sortByUrgency tz now words) = mset words
   \<and> mset (filter (\<lambda>w. memoryStatus w = mastered) (sortByUrgency tz now words))
       = mset (filter (\<lambda>w. memoryStatus w = mastered) words)
   \<and> mset (reviewQueue (startReview tz now words st)) = mset words
   \<and> currentReviewIndex (startReview tz now words st) = 0
   \<and> (\<forall>arrays a. a < allocated arrays \<longrightarrow>
         elements (snd (sortByUrgencyRef tz now a arrays)) a = elements arrays a
       \<and> (\<forall>r < allocated arrays.
             elements (snd (sortByUrgencyRef tz now a arrays)) r = elements arrays r)
       \<and> fst (sortByUrgencyRef tz now a arrays) \<noteq> a
       \<and> allocated arrays \<le> fst (sortByUrgencyRef tz now a arrays)
       \<and> elements (snd (sortByUrgencyRef tz now a arrays)) (fst (sortByUrgencyRef tz now a arrays))
           = sortByUrgency tz now (elements arrays a))"
proof -
  have m: "mset (sortByUrgency tz now ws) = mset ws" for ws
    by (simp add: sortByUrgency_def Let_def mset_arraySort)
  have f: "mset (filter P (sortByUrgency tz now words)) = mset (filter P words)" for P
    using m [of words] by (metis mset_filter)
  show ?thesis
    using m f by (simp add: startReview_def sortByUrgencyRef_result)
qed

text \<open>
  The theorem on a list with a mastered entry, held in the array at reference 0 of a
  store with one array: that array is unchanged and the sorted copy is at reference 1.
\<close>

theorem sortByUrgency_permutation_witness:
  "mset (sortByUrgency sampleZone sampleNow [futureEntry, masteredEntry, todayEntry])
     = mset [futureEntry, masteredEntry, todayEntry]
   \<and> 0 < allocated sampleArrays
   \<and> elements (snd (sortByUrgencyRef sampleZone sampleNow 0 sampleArrays)) 0
       = [futureEntry, masteredEntry, todayEntry]
   \<and> fst (sortByUrgencyRef sampleZone sampleNow 0 sampleArrays) = 1
   \<and> elements (snd (sortByUrgencyRef sampleZone sampleNow 0 sampleArrays)) 1
       = [masteredEntry, todayEntry, futureEntry]"
proof -
  note T = sortByUrgency_permutation [of sampleZone sampleNow
      "[futureEntry, masteredEntry, todayEntry]" "sampleStore 0 []"]
  have l: "0 < allocated sampleArrays" by (simp add: sampleArrays_def)
  note R = T [THEN conjunct2, THEN conjunct2, THEN conjunct2, THEN conjunct2, rule_format, OF l]
  have e: "elements sampleArrays 0 = [futureEntry, masteredEntry, todayEntry]"
    by (simp add: sampleArrays_def)
  have s: "sortByUrgency sampleZone sampleNow [futureEntry, masteredEntry, todayEntry]
       = [masteredEntry, todayEntry, futureEntry]"
    by (simp add: sortByUrgency_def Let_def compareUrgency_def getPriority_def
          masteredEntry_def todayEntry_def futureEntry_def sampleEntry_def
          getStartOfDay_def getEndOfDay_def sampleZone_def sampleNow_def DAY_MS_def)
  have r: "fst (sortByUrgencyRef sampleZone sampleNow 0 sampleArrays) = 1"
    by (simp add: sortByUrgencyRef_def Let_def sampleArrays_def)
  from T [THEN conjunct1] R l e s r show ?thesis by simp
qed

section \<open>Review session\<close>


lemma saveProgress_queue [simp]:
  "reviewQueue (snd (saveProgress st)) = reviewQueue st"
  "currentReviewIndex (snd (saveProgress st)) = currentReviewIndex st"
  by (simp_all add: saveProgress_def Let_def split: prod.splits)

lemma updateStreakDays_queue [simp]:
  "reviewQueue (updateStreakDays today st) = reviewQueue st"
  "currentReviewIndex (updateStreakDays today st) = currentReviewIndex st"
  by (simp_all add: updateStreakDays_def Let_def)

lemma updateStats_queue [simp]:
  "reviewQueue (updateStats today st) = reviewQueue st"
  "currentReviewIndex (updateStats today st) = currentReviewIndex st"
  by (simp_all add: updateStats_def Let_def)

lemma updateProgressList_queue [simp]:
  "reviewQueue (updateProgressList p st) = reviewQueue st"
  "currentReviewIndex (updateProgressList p st) = currentReviewIndex st"
  by (simp_all add: updateProgressList_def split: option.splits)

lemma currentWord_None_iff:
  "currentWord st = None \<longleftrightarrow> reviewQueue st = [] \<or> length (reviewQueue st) \<le> currentReviewIndex st"
  by (simp add: currentWord_def)

lemma currentWord_Some_iff:
  "currentWord st = Some w \<longleftrightarrow>
     currentReviewIndex st < length (reviewQueue st) \<and> w = reviewQueue st ! currentReviewIndex st"
  by (auto simp: currentWord_def)

lemma forget_effect:
  assumes "currentWord st = Some w"
  shows "reviewQueue (snd (store_handleForget tz now today st)) =
           reviewQueue st @ [w\<lparr>reviewStage := S1,
                                nextReviewAt := getStartOfDay tz now + 86400000,
                                memoryStatus := learning, lastReviewedAt := Some now\<rparr>]"
    and "currentReviewIndex (snd (store_handleForget tz now today st)) = currentReviewIndex st + 1"
    and "fst (store_handleForget tz now today st) = Some (handleForget tz now w)"
  using assms
  by (simp_all add: store_handleForget_def Let_def handleForget_def calculateNextReview_def DAY_MS_def)

lemma remember_effect:
  assumes "currentWord st = Some w"
  shows "reviewQueue (snd (store_handleRemember tz now today st)) = reviewQueue st"
    and "currentReviewIndex (snd (store_handleRemember tz now today st)) = currentReviewIndex st + 1"
    and "fst (store_handleRemember tz now today st) = Some (handleRemember tz now w)"
  using assms
  by (simp_all add: store_handleRemember_def Let_def)

lemma out_of_range_effect:
  assumes "currentWord st = None"
  shows "store_handleRemember tz now today st = (None, st)"
    and "store_handleForget tz now today st = (None, st)"
  using assms by (simp_all add: store_handleRemember_def store_handleForget_def)

lemma grade_cursor:
  "currentReviewIndex (grade tz g st) =
     (if currentWord st = None then currentReviewIndex st else currentReviewIndex st + 1)"
proof (cases g)
  case (fields k now today)
  then show ?thesis
    by (cases k; cases "currentWord st")
       (simp_all add: out_of_range_effect remember_effect forget_effect)
qed

lemma grade_queue:
  "\<exists>extra. reviewQueue (grade tz g st) = reviewQueue st @ extra
     \<and> length extra = (if currentWord st \<noteq> None \<and> fst g = Forget then 1 else 0)"
proof (cases g)
  case (fields k now today)
  then show ?thesis
    by (cases k; cases "currentWord st")
       (simp_all add: out_of_range_effect remember_effect forget_effect)
qed

lemma gradeAll_cursor_mono: "currentReviewIndex st \<le> currentReviewIndex (gradeAll tz gs st)"
proof (induction gs arbitrary: st)
  case Nil
  show ?case by simp
next
  case (Cons g gs)
  have "currentReviewIndex st \<le> currentReviewIndex (grade tz g st)"
    by (simp add: grade_cursor)
  with Cons [of "grade tz g st"] show ?case by simp
qed

lemma gradeAll_cursor_upper:
  "currentReviewIndex (gradeAll tz gs st) \<le> currentReviewIndex st + length gs"
proof (induction gs arbitrary: st)
  case Nil
  show ?case by simp
next
  case (Cons g gs)
  have "currentReviewIndex (grade tz g st) \<le> currentReviewIndex st + 1"
    by (simp add: grade_cursor)
  with Cons [of "grade tz g st"] show ?case by simp
qed

lemma gradeAll_queue_prefix:
  "\<exists>extra. reviewQueue (gradeAll tz gs st) = reviewQueue st @ extra"
proof (induction gs arbitrary: st)
  case Nil
  show ?case by simp
next
  case (Cons g gs)
  from grade_queue [of tz g st] obtain e1 where e1: "reviewQueue (grade tz g st) = reviewQueue st @ e1"
    by blast
  from Cons [of "grade tz g st"] obtain e2
    where "reviewQueue (gradeAll tz gs (grade tz g st)) = reviewQueue (grade tz g st) @ e2"
    by blast
  with e1 show ?case by simp
qed

lemma isReviewComplete_iff:
  "isReviewComplete st \<longleftrightarrow>
     reviewQueue st \<noteq> [] \<and> length (reviewQueue st) \<le> currentReviewIndex st"
  by (simp add: isReviewComplete_def)

lemma startReview_queue:
  "length (reviewQueue (startReview tz now ws st)) = length ws"
  "currentReviewIndex (startReview tz now ws st) = 0"
  by (simp_all add: startReview_def sortByUrgency_def Let_def
        arg_cong [OF mset_arraySort, of size, simplified])

lemma two_forgets:
  assumes "length (reviewQueue s0) = 2" and "currentReviewIndex s0 = 0"
  shows "reviewQueue (gradeAll tz [(Forget, n1, t1), (Forget, n2, t2)] s0) =
           reviewQueue s0 @
             [(reviewQueue s0 ! 0)\<lparr>reviewStage := S1,
                  nextReviewAt := getStartOfDay tz n1 + 86400000,
                  memoryStatus := learning, lastReviewedAt := Some n1\<rparr>,
              (reviewQueue s0 ! 1)\<lparr>reviewStage := S1,
                  nextReviewAt := getStartOfDay tz n2 + 86400000,
                  memoryStatus := learning, lastReviewedAt := Some n2\<rparr>]"
    and "currentReviewIndex (gradeAll tz [(Forget, n1, t1), (Forget, n2, t2)] s0) = 2"
proof -
  have w1: "currentWord s0 = Some (reviewQueue s0 ! 0)"
    using assms by (simp add: currentWord_def)
  let ?s1 = "snd (store_handleForget tz n1 t1 s0)"
  note q1 = forget_effect(1) [OF w1, of tz n1 t1]
  have c1: "currentReviewIndex ?s1 = 1"
    using forget_effect(2) [OF w1, of tz n1 t1] assms by simp
  have w2: "currentWord ?s1 = Some (reviewQueue s0 ! 1)"
    using q1 c1 assms by (simp add: currentWord_def nth_append)
  let ?s2 = "snd (store_handleForget tz n2 t2 ?s1)"
  note q2 = forget_effect(1) [OF w2, of tz n2 t2]
  have c2: "currentReviewIndex ?s2 = 2"
    using forget_effect(2) [OF w2, of tz n2 t2] c1 by simp
  show "reviewQueue (gradeAll tz [(Forget, n1, t1), (Forget, n2, t2)] s0) =
           reviewQueue s0 @
             [(reviewQueue s0 ! 0)\<lparr>reviewStage := S1,
                  nextReviewAt := getStartOfDay tz n1 + 86400000,
                  memoryStatus := learning, lastReviewedAt := Some n1\<rparr>,
              (reviewQueue s0 ! 1)\<lparr>reviewStage := S1,
                  nextReviewAt := getStartOfDay tz n2 + 86400000,
                  memoryStatus := learning, lastReviewedAt := Some n2\<rparr>]"
    using q2 q1 by simp
  show "currentReviewIndex (gradeAll tz [(Forget, n1, t1), (Forget, n2, t2)] s0) = 2"
    using c2 by simp
qed

lemma gradeAll_append: "gradeAll tz (gs @ hs) st = gradeAll tz hs (gradeAll tz gs st)"
  by (induction gs arbitrary: st) simp_all

lemma gradeAll_queue_length: "length (reviewQueue st) \<le> length (reviewQueue (gradeAll tz gs st))"
  using gradeAll_queue_prefix [of tz gs st] by auto

lemma two_remembers:
  assumes "length (reviewQueue s) = 4" and "currentReviewIndex s = 2"
  shows "isReviewComplete (gradeAll tz [(Remember, n3, t3), (Remember, n4, t4)] s)"
proof -
  obtain w1 where w1: "currentWord s = Some w1"
    using assms by (simp add: currentWord_def)
  let ?s1 = "snd (store_handleRemember tz n3 t3 s)"
  have q1: "length (reviewQueue ?s1) = 4" and c1: "currentReviewIndex ?s1 = 3"
    using remember_effect(1,2) [OF w1, of tz n3 t3] assms by simp_all
  obtain w2 where w2: "currentWord ?s1 = Some w2"
    using q1 c1 by (simp add: currentWord_def)
  let ?s2 = "snd (store_handleRemember tz n4 t4 ?s1)"
  have q2: "length (reviewQueue ?s2) = 4" and c2: "currentReviewIndex ?s2 = 4"
    using remember_effect(1,2) [OF w2, of tz n4 t4] q1 c1 by simp_all
  then show ?thesis by (auto simp: isReviewComplete_def)
qed

text \<open>
  Claim C1. Grading "forget" on the current entry appends a copy of the entry with its
  new stage, \<open>nextReviewAt\<close>, status and \<open>lastReviewedAt\<close> to the end of the queue and
  moves the cursor forward by 1, so the queue grows by one. Under any sequence of
  gradings the cursor never decreases and the queue only grows at its end. For a session
  started with two entries, two forgets give a queue of length 4, the two entries
  followed by their two copies; the session is not complete before 4 gradings, whatever
  the gradings after the two forgets are, and it is complete after the 4th when the two
  repeated entries are remembered.
\<close>

theorem forget_requeues:
  fixes st :: Store
  shows
    "(\<forall>w. currentWord st = Some w \<longrightarrow>
        reviewQueue (snd (store_handleForget tz now today st)) =
          reviewQueue st @ [w\<lparr>reviewStage := S1,
                               nextReviewAt := getStartOfDay tz now + 86400000,
                               memoryStatus := learning, lastReviewedAt := Some now\<rparr>]
      \<and> length (reviewQueue (snd (store_handleForget tz now today st)))
          = length (reviewQueue st) + 1
      \<and> currentReviewIndex (snd (store_handleForget tz now today st)) = currentReviewIndex st + 1
      \<and> fst (store_handleForget tz now today st) = Some (handleForget tz now w))
   \<and> (\<forall>gs. currentReviewIndex st \<le> currentReviewIndex (gradeAll tz gs st)
          \<and> take (length (reviewQueue st)) (reviewQueue (gradeAll tz gs st)) = reviewQueue st)
   \<and> (\<forall>a b n1 t1 n2 t2 n3 t3 n4 t4 rest.
        length (reviewQueue (startReview tz now [a, b] st)) = 2
      \<and> reviewQueue
            (gradeAll tz [(Forget, n1, t1), (Forget, n2, t2)] (startReview tz now [a, b] st)) =
          reviewQueue (startReview tz now [a, b] st) @
            [(reviewQueue (startReview tz now [a, b] st) ! 0)\<lparr>reviewStage := S1,
                 nextReviewAt := getStartOfDay tz n1 + 86400000,
                 memoryStatus := learning, lastReviewedAt := Some n1\<rparr>,
             (reviewQueue (startReview tz now [a, b] st) ! 1)\<lparr>reviewStage := S1,
                 nextReviewAt := getStartOfDay tz n2 + 86400000,
                 memoryStatus := learning, lastReviewedAt := Some n2\<rparr>]
      \<and> length (reviewQueue
            (gradeAll tz [(Forget, n1, t1), (Forget, n2, t2)] (startReview tz now [a, b] st))) = 4
      \<and> (isReviewComplete
            (gradeAll tz ((Forget, n1, t1) # (Forget, n2, t2) # rest) (startReview tz now [a, b] st))
          \<longrightarrow> 4 \<le> length ((Forget, n1, t1) # (Forget, n2, t2) # rest))
      \<and> isReviewComplete
            (gradeAll tz [(Forget, n1, t1), (Forget, n2, t2), (Remember, n3, t3), (Remember, n4, t4)]
               (startReview tz now [a, b] st)))"
proof (intro conjI allI impI)
  fix w
  assume w: "currentWord st = Some w"
  show "reviewQueue (snd (store_handleForget tz now today st)) =
          reviewQueue st @ [w\<lparr>reviewStage := S1,
                               nextReviewAt := getStartOfDay tz now + 86400000,
                               memoryStatus := learning, lastReviewedAt := Some now\<rparr>]"
    by (rule forget_effect(1) [OF w])
  then show "length (reviewQueue (snd (store_handleForget tz now today st)))
          = length (reviewQueue st) + 1"
    by simp
  show "currentReviewIndex (snd (store_handleForget tz now today st)) = currentReviewIndex st + 1"
    by (rule forget_effect(2) [OF w])
  show "fst (store_handleForget tz now today st) = Some (handleForget tz now w)"
    by (rule forget_effect(3) [OF w])
next
  fix gs
  show "currentReviewIndex st \<le> currentReviewIndex (gradeAll tz gs st)"
    by (rule gradeAll_cursor_mono)
  show "take (length (reviewQueue st)) (reviewQueue (gradeAll tz gs st)) = reviewQueue st"
    using gradeAll_queue_prefix [of tz gs st] by auto
next
  fix a b :: WordEntry and n1 n2 n3 n4 :: int and t1 t2 t3 t4 :: string
    and rest :: "(Grading \<times> int \<times> string) list"
  let ?s0 = "startReview tz now [a, b] st"
  let ?ff = "[(Forget, n1, t1), (Forget, n2, t2)]"
  have s0: "length (reviewQueue ?s0) = 2" "currentReviewIndex ?s0 = 0"
    by (simp_all add: startReview_queue)
  show "length (reviewQueue ?s0) = 2" by (rule s0)
  show "reviewQueue (gradeAll tz ?ff ?s0) =
          reviewQueue ?s0 @
            [(reviewQueue ?s0 ! 0)\<lparr>reviewStage := S1,
                 nextReviewAt := getStartOfDay tz n1 + 86400000,
                 memoryStatus := learning, lastReviewedAt := Some n1\<rparr>,
             (reviewQueue ?s0 ! 1)\<lparr>reviewStage := S1,
                 nextReviewAt := getStartOfDay tz n2 + 86400000,
                 memoryStatus := learning, lastReviewedAt := Some n2\<rparr>]"
    by (rule two_forgets(1) [OF s0])
  then show four: "length (reviewQueue (gradeAll tz ?ff ?s0)) = 4"
    using s0(1) by simp
  have cur: "currentReviewIndex (gradeAll tz ?ff ?s0) = 2"
    by (rule two_forgets(2) [OF s0])
  show "4 \<le> length ((Forget, n1, t1) # (Forget, n2, t2) # rest)"
    if c: "isReviewComplete (gradeAll tz ((Forget, n1, t1) # (Forget, n2, t2) # rest) ?s0)"
  proof -
    have e: "gradeAll tz ((Forget, n1, t1) # (Forget, n2, t2) # rest) ?s0
               = gradeAll tz rest (gradeAll tz ?ff ?s0)"
      using gradeAll_append [of tz ?ff rest ?s0] by simp
    have "4 \<le> length (reviewQueue (gradeAll tz rest (gradeAll tz ?ff ?s0)))"
      using gradeAll_queue_length [of "gradeAll tz ?ff ?s0" tz rest] four by simp
    moreover have "currentReviewIndex (gradeAll tz rest (gradeAll tz ?ff ?s0)) \<le> 2 + length rest"
      using gradeAll_cursor_upper [of tz rest "gradeAll tz ?ff ?s0"] cur by simp
    ultimately show ?thesis
      using c unfolding e isReviewComplete_iff by simp
  qed
  show "isReviewComplete
          (gradeAll tz [(Forget, n1, t1), (Forget, n2, t2), (Remember, n3, t3), (Remember, n4, t4)] ?s0)"
    using two_remembers [OF four cur, of tz n3 t3 n4 t4]
      gradeAll_append [of tz ?ff "[(Remember, n3, t3), (Remember, n4, t4)]" ?s0]
    by simp
qed

text \<open>
  Claim C9. The cursor is out of range (there is no current entry) exactly when the queue
  is empty or the cursor is at or beyond its length; then both grading operations return
  null and the whole state of the store, its storage included, is as before.
\<close>

theorem out_of_range_grading:
  fixes st :: Store
  shows
    "(currentWord st = None \<longleftrightarrow>
        reviewQueue st = [] \<or> length (reviewQueue st) \<le> currentReviewIndex st)
   \<and> (reviewQueue st = [] \<or> length (reviewQueue st) \<le> currentReviewIndex st \<longrightarrow>
        store_handleRemember tz now today st = (None, st)
      \<and> store_handleForget tz now today st = (None, st))"
  using out_of_range_effect [of st tz now today] by (simp add: currentWord_None_iff)

lemma sampleSession_queue:
  "reviewQueue sampleSession = [overdueEntry, todayEntry]"
  "currentReviewIndex sampleSession = 0"
  by (simp_all add: sampleSession_def startReview_def sortByUrgency_def Let_def compareUrgency_def
        getPriority_def overdueEntry_def todayEntry_def sampleEntry_def
        getStartOfDay_def getEndOfDay_def sampleZone_def sampleNow_def DAY_MS_def)

text \<open>
  The theorem on a session of two entries in which the first entry is forgotten: its
  copy is at the end of the queue and the cursor is at 1; after two forgets the queue
  has length 4, and the session is complete after the 4th grading and not after the 3rd.
\<close>

theorem forget_requeues_witness:
  "currentWord sampleSession = Some overdueEntry
   \<and> reviewQueue (snd (store_handleForget sampleZone sampleNow ''2026-01-11'' sampleSession)) =
       [overdueEntry, todayEntry,
        overdueEntry\<lparr>reviewStage := S1, nextReviewAt := 1768060800000 + 86400000,
                      memoryStatus := learning, lastReviewedAt := Some sampleNow\<rparr>]
   \<and> currentReviewIndex (snd (store_handleForget sampleZone sampleNow ''2026-01-11'' sampleSession)) = 1
   \<and> length (reviewQueue (gradeAll sampleZone
        [(Forget, sampleNow, ''2026-01-11''), (Forget, sampleNow, ''2026-01-11'')] sampleSession)) = 4
   \<and> \<not> isReviewComplete (gradeAll sampleZone
        [(Forget, sampleNow, ''2026-01-11''), (Forget, sampleNow, ''2026-01-11''),
         (Remember, sampleNow, ''2026-01-11'')] sampleSession)
   \<and> isReviewComplete (gradeAll sampleZone
        [(Forget, sampleNow, ''2026-01-11''), (Forget, sampleNow, ''2026-01-11''),
         (Remember, sampleNow, ''2026-01-11''), (Remember, sampleNow, ''2026-01-11'')] sampleSession)"
proof -
  have w: "currentWord sampleSession = Some overdueEntry"
    by (simp add: currentWord_def sampleSession_queue)
  have s: "getStartOfDay sampleZone sampleNow = 1768060800000"
    by (simp add: getStartOfDay_def sampleZone_def sampleNow_def DAY_MS_def)
  note A = forget_requeues [of sampleSession sampleZone sampleNow "''2026-01-11''"]
  note A1 = A [THEN conjunct1, rule_format, OF w]
  note B = forget_requeues [of "sampleStore 0 []" sampleZone sampleNow "''2026-01-11''"]
  note B3 = B [THEN conjunct2, THEN conjunct2, rule_format,
      where a = todayEntry and b = overdueEntry and ?n1.0 = sampleNow and ?t1.0 = "''2026-01-11''"
        and ?n2.0 = sampleNow and ?t2.0 = "''2026-01-11''"
        and rest = "[(Remember, sampleNow, ''2026-01-11'')]", folded sampleSession_def]
  have "\<not> isReviewComplete (gradeAll sampleZone
        [(Forget, sampleNow, ''2026-01-11''), (Forget, sampleNow, ''2026-01-11''),
         (Remember, sampleNow, ''2026-01-11'')] sampleSession)"
    using B3 [THEN conjunct2, THEN conjunct2, THEN conjunct2, THEN conjunct1] by auto
  moreover have "isReviewComplete (gradeAll sampleZone
        [(Forget, sampleNow, ''2026-01-11''), (Forget, sampleNow, ''2026-01-11''),
         (Remember, sampleNow, ''2026-01-11''), (Remember, sampleNow, ''2026-01-11'')] sampleSession)"
    by (rule B3 [THEN conjunct2, THEN conjunct2, THEN conjunct2, THEN conjunct2])
  moreover have "length (reviewQueue (gradeAll sampleZone
        [(Forget, sampleNow, ''2026-01-11''), (Forget, sampleNow, ''2026-01-11'')] sampleSession)) = 4"
    using B3 [THEN conjunct2, THEN conjunct2, THEN conjunct1] .
  ultimately show ?thesis
    using w A1 by (simp add: s sampleSession_queue)
qed

text \<open>The theorem on a store without a queue and on a finished session.\<close>

theorem out_of_range_grading_witness:
  "reviewQueue (sampleStore 0 []) = []
   \<and> store_handleRemember sampleZone sampleNow ''2026-01-11'' (sampleStore 0 [])
       = (None, sampleStore 0 [])
   \<and> store_handleForget sampleZone sampleNow ''2026-01-11'' (sampleStore 0 [])
       = (None, sampleStore 0 [])
   \<and> length (reviewQueue finishedSession) \<le> currentReviewIndex finishedSession
   \<and> isReviewComplete finishedSession
   \<and> store_handleRemember sampleZone sampleNow ''2026-01-11'' finishedSession
       = (None, finishedSession)
   \<and> store_handleForget sampleZone sampleNow ''2026-01-11'' finishedSession
       = (None, finishedSession)"
proof -
  have e: "reviewQueue (sampleStore 0 []) = []"
    by (simp add: sampleStore_def)
  have f: "length (reviewQueue finishedSession) \<le> currentReviewIndex finishedSession"
    "isReviewComplete finishedSession"
    by (simp_all add: finishedSession_def isReviewComplete_def)
  note A = out_of_range_grading [of "sampleStore 0 []" sampleZone sampleNow "''2026-01-11''",
      THEN conjunct2, rule_format, OF disjI1, OF e]
  note B = out_of_range_grading [of finishedSession sampleZone sampleNow "''2026-01-11''",
      THEN conjunct2, rule_format, OF disjI2, OF f(1)]
  from e f A B show ?thesis by simp
qed

section \<open>Catalog and progress\<close>

lemma progressMapOf_snoc:
  "progressMapOf (ps @ [p]) = (progressMapOf ps)(wordId p \<mapsto> p)"
  by (simp add: progressMapOf_def)

lemma progressMapOf_last:
  "progressMapOf ps k =
     (if filter (\<lambda>p. wordId p = k) ps = [] then None
      else Some (last (filter (\<lambda>p. wordId p = k) ps)))"
proof (induction ps rule: rev_induct)
  case Nil
  show ?case by (simp add: progressMapOf_def)
next
  case (snoc p ps)
  show ?case unfolding progressMapOf_snoc using snoc by simp
qed

lemma filter_id_empty_iff:
  "filter (\<lambda>p. wordId p = k) ps = [] \<longleftrightarrow> k \<notin> wordId ` set ps"
  by (auto simp: filter_empty_conv)

lemma distinct_ids_filter:
  assumes "distinct (map wordId ps)" and "p \<in> set ps"
  shows "filter (\<lambda>q. wordId q = wordId p) ps = [p]"
  using assms
proof (induction ps)
  case Nil
  then show ?case by simp
next
  case (Cons a ps)
  show ?case
  proof (cases "a = p")
    case True
    have "filter (\<lambda>q. wordId q = wordId p) ps = []"
      using Cons.prems(1) True by (force simp: filter_empty_conv image_iff)
    with True show ?thesis by simp
  next
    case False
    with Cons.prems have "p \<in> set ps" "wordId a \<noteq> wordId p" by auto
    with Cons show ?thesis by simp
  qed
qed

lemma startOfDay_parseDateString:
  "getStartOfDay tz (parseDateString tz d) = parseDateString tz d"
  by (simp add: getStartOfDay_def parseDateString_def Let_def)

lemma calculateInitialReview_midnight:
  "calculateInitialReview tz d = parseDateString tz d"
  by (simp add: calculateInitialReview_def startOfDay_parseDateString)

lemma merge_entry:
  "mergeWithProgress tz words progress ! i = e" if "i < length words" "words ! i = (raw, date)"
  "e = (case progressMapOf progress (generateWordId (dateText date) (RawWord.word raw)) of
           Some p \<Rightarrow> \<lparr> wordId = generateWordId (dateText date) (RawWord.word raw),
                     reviewStage = reviewStage p,
                     nextReviewAt = nextReviewAt p,
                     memoryStatus = memoryStatus p,
                     lastReviewedAt = lastReviewedAt p,
                     word = RawWord.word raw, meaning = RawWord.meaning raw,
                     example = RawWord.example raw, addedDate = dateText date \<rparr>
         | None \<Rightarrow> createWordEntry tz raw date)"
  using that by (simp add: mergeWithProgress_def Let_def)

text \<open>
  Claim C4. The merge keeps the catalog order and the catalog fields, and gives every
  entry the id computed from its introduction date and its word. An entry whose id is
  in the progress list takes stage, \<open>nextReviewAt\<close>, status and \<open>lastReviewedAt\<close> from the
  record of that id (the last one in the list, which is the only one when ids are
  distinct); every other entry is at stage 0, new, never reviewed, with
  \<open>nextReviewAt\<close> the start of its introduction day, which is the local midnight of
  that day itself. With an empty progress list every entry is such a new entry.
\<close>

theorem mergeWithProgress_entries:
  shows
    "length (mergeWithProgress tz words progress) = length words
   \<and> (\<forall>i raw date. i < length words \<and> words ! i = (raw, date) \<longrightarrow>
        wordId (mergeWithProgress tz words progress ! i)
          = generateWordId (dateText date) (RawWord.word raw)
      \<and> word (mergeWithProgress tz words progress ! i) = RawWord.word raw
      \<and> meaning (mergeWithProgress tz words progress ! i) = RawWord.meaning raw
      \<and> example (mergeWithProgress tz words progress ! i) = RawWord.example raw
      \<and> addedDate (mergeWithProgress tz words progress ! i) = dateText date
      \<and> (generateWordId (dateText date) (RawWord.word raw) \<in> wordId ` set progress \<longrightarrow>
           reviewStage (mergeWithProgress tz words progress ! i)
             = reviewStage (lastWithId (generateWordId (dateText date) (RawWord.word raw)) progress)
         \<and> nextReviewAt (mergeWithProgress tz words progress ! i)
             = nextReviewAt (lastWithId (generateWordId (dateText date) (RawWord.word raw)) progress)
         \<and> memoryStatus (mergeWithProgress tz words progress ! i)
             = memoryStatus (lastWithId (generateWordId (dateText date) (RawWord.word raw)) progress)
         \<and> lastReviewedAt (mergeWithProgress tz words progress ! i)
             = lastReviewedAt (lastWithId (generateWordId (dateText date) (RawWord.word raw)) progress))
      \<and> (generateWordId (dateText date) (RawWord.word raw) \<notin> wordId ` set progress \<longrightarrow>
           reviewStage (mergeWithProgress tz words progress ! i) = S0
         \<and> memoryStatus (mergeWithProgress tz words progress ! i) = new
         \<and> lastReviewedAt (mergeWithProgress tz words progress ! i) = None
         \<and> nextReviewAt (mergeWithProgress tz words progress ! i)
             = getStartOfDay tz (parseDateString tz date)
         \<and> nextReviewAt (mergeWithProgress tz words progress ! i) = parseDateString tz date))
   \<and> (\<forall>p k. distinct (map wordId progress) \<and> p \<in> set progress \<and> wordId p = k \<longrightarrow>
         lastWithId k progress = p)
   \<and> (\<forall>k. k \<in> wordId ` set progress \<longrightarrow>
         lastWithId k progress \<in> set progress \<and> wordId (lastWithId k progress) = k)
   \<and> mergeWithProgress tz words [] = map (\<lambda>(raw, date). createWordEntry tz raw date) words"
proof (intro conjI allI impI)
  show "length (mergeWithProgress tz words progress) = length words"
    by (simp add: mergeWithProgress_def)
  show "mergeWithProgress tz words [] = map (\<lambda>(raw, date). createWordEntry tz raw date) words"
    by (simp add: mergeWithProgress_def progressMapOf_def Let_def)
next
  fix p k
  assume "distinct (map wordId progress) \<and> p \<in> set progress \<and> wordId p = k"
  then show "lastWithId k progress = p"
    using distinct_ids_filter [of progress p] by (auto simp: lastWithId_def)
next
  fix k
  assume k: "k \<in> wordId ` set progress"
  then have ne: "filter (\<lambda>p. wordId p = k) progress \<noteq> []"
    by (simp add: filter_id_empty_iff)
  from last_in_set [OF ne] show "lastWithId k progress \<in> set progress"
    by (simp add: lastWithId_def)
  from last_in_set [OF ne] show "wordId (lastWithId k progress) = k"
    by (simp add: lastWithId_def)
next
  fix i raw date
  assume h: "i < length words \<and> words ! i = (raw, date)"
  let ?k = "generateWordId (dateText date) (RawWord.word raw)"
  let ?e = "mergeWithProgress tz words progress ! i"
  note e = merge_entry [OF h [THEN conjunct1] h [THEN conjunct2] refl, of tz progress]
  show "wordId ?e = ?k" "word ?e = RawWord.word raw" "meaning ?e = RawWord.meaning raw"
    "example ?e = RawWord.example raw" "addedDate ?e = dateText date"
    unfolding e by (simp_all add: createWordEntry_def Let_def split: option.splits)
  {
    assume "?k \<in> wordId ` set progress"
    then have m: "progressMapOf progress ?k = Some (lastWithId ?k progress)"
      by (simp add: progressMapOf_last filter_id_empty_iff lastWithId_def)
    show "reviewStage ?e = reviewStage (lastWithId ?k progress)"
      "nextReviewAt ?e = nextReviewAt (lastWithId ?k progress)"
      "memoryStatus ?e = memoryStatus (lastWithId ?k progress)"
      "lastReviewedAt ?e = lastReviewedAt (lastWithId ?k progress)"
      unfolding e m by simp_all
  }
  {
    assume "?k \<notin> wordId ` set progress"
    then have m: "progressMapOf progress ?k = None"
      by (simp add: progressMapOf_last filter_id_empty_iff)
    show "reviewStage ?e = S0" "memoryStatus ?e = new" "lastReviewedAt ?e = None"
      "nextReviewAt ?e = getStartOfDay tz (parseDateString tz date)"
      "nextReviewAt ?e = parseDateString tz date"
      unfolding e m
      by (simp_all add: createWordEntry_def Let_def calculateInitialReview_midnight
            startOfDay_parseDateString)
  }
qed

lemma sampleDate_text: "dateText sampleDate = ''2026-01-11''"
  by (simp add: dateText_def sampleDate_def padStart_def decimal.simps digitChar_def)

text \<open>
  The theorem on a catalog of two words of 2026-01-11 and a progress list with a record
  for the first: the first entry takes stage 3 and the record's \<open>nextReviewAt\<close>; the
  second is new, due at the local midnight of 2026-01-11.
\<close>

theorem mergeWithProgress_entries_witness:
  "reviewStage (mergeWithProgress sampleZone [(appleWord, sampleDate), (pearWord, sampleDate)]
       [appleProgress] ! 0) = S3
   \<and> nextReviewAt (mergeWithProgress sampleZone [(appleWord, sampleDate), (pearWord, sampleDate)]
       [appleProgress] ! 0) = 1768406400000
   \<and> wordId (mergeWithProgress sampleZone [(appleWord, sampleDate), (pearWord, sampleDate)]
       [appleProgress] ! 1) = ''2026-01-11_pear''
   \<and> reviewStage (mergeWithProgress sampleZone [(appleWord, sampleDate), (pearWord, sampleDate)]
       [appleProgress] ! 1) = S0
   \<and> memoryStatus (mergeWithProgress sampleZone [(appleWord, sampleDate), (pearWord, sampleDate)]
       [appleProgress] ! 1) = new
   \<and> nextReviewAt (mergeWithProgress sampleZone [(appleWord, sampleDate), (pearWord, sampleDate)]
       [appleProgress] ! 1) = 1768060800000"
proof -
  let ?words = "[(appleWord, sampleDate), (pearWord, sampleDate)]"
  note T = mergeWithProgress_entries [of sampleZone ?words "[appleProgress]",
      THEN conjunct2, THEN conjunct1, rule_format]
  have i0: "0 < length ?words \<and> ?words ! 0 = (appleWord, sampleDate)" by simp
  have i1: "1 < length ?words \<and> ?words ! 1 = (pearWord, sampleDate)" by simp
  have k0: "generateWordId (dateText sampleDate) (RawWord.word appleWord) \<in> wordId ` set [appleProgress]"
    by (simp add: sampleDate_text generateWordId_def appleWord_def appleProgress_def)
  have k1: "generateWordId (dateText sampleDate) (RawWord.word pearWord) \<notin> wordId ` set [appleProgress]"
    by (simp add: sampleDate_text generateWordId_def pearWord_def appleProgress_def)
  have l: "lastWithId (generateWordId (dateText sampleDate) (RawWord.word appleWord)) [appleProgress]
             = appleProgress"
    by (simp add: lastWithId_def sampleDate_text generateWordId_def appleWord_def appleProgress_def)
  have p: "parseDateString sampleZone sampleDate = 1768060800000"
    by (simp add: parseDateString_def sampleDate_def sampleZone_def MakeDay_def DayFromYear_def
          DaysBeforeMonth_def DAY_MS_def Let_def)
  have g: "generateWordId (dateText sampleDate) (RawWord.word pearWord) = ''2026-01-11_pear''"
    by (simp add: sampleDate_text generateWordId_def pearWord_def)
  note A = T [OF i0, THEN conjunct2, THEN conjunct2, THEN conjunct2, THEN conjunct2,
      THEN conjunct2, THEN conjunct1, rule_format, OF k0, unfolded l]
  note B = T [OF i1, THEN conjunct2, THEN conjunct2, THEN conjunct2, THEN conjunct2,
      THEN conjunct2, THEN conjunct2, rule_format, OF k1, unfolded p]
  note C = T [OF i1, THEN conjunct1, unfolded g]
  from A B C show ?thesis by (simp add: appleProgress_def)
qed

section \<open>Loading, export and import\<close>

lemma typeof_number: "typeof x = ''number'' \<longleftrightarrow> isNum x"
  by (cases x rule: typeof.cases) simp_all

lemma typeof_string: "typeof x = ''string'' \<longleftrightarrow> isStr x"
  by (cases x rule: typeof.cases) simp_all

lemma objectOrArray_iff: "objectOrArray x \<longleftrightarrow> truthy x \<and> typeof x = ''object''"
  by (cases x rule: typeof.cases) simp_all

lemma isValidProgressData_iff:
  "isValidProgressData d \<longleftrightarrow>
     (\<exists>kvs stats. d = JObj kvs
        \<and> isNum (map_of kvs ''version'')
        \<and> isArray (map_of kvs ''progress'')
        \<and> map_of kvs ''stats'' = Some (JObj stats)
        \<and> isNum (map_of stats ''streakDays'')
        \<and> isStr (map_of stats ''lastStudyDate'')
        \<and> objectOrArray (map_of stats ''dailyReviews'')
        \<and> objectOrArray (map_of kvs ''settings''))"
proof (cases d)
  case (JObj kvs)
  show ?thesis
  proof (cases "map_of kvs ''stats''")
    case None
    with JObj show ?thesis
      by (simp add: isValidProgressData_def typeof_number typeof_string)
  next
    case (Some st)
    with JObj show ?thesis
      by (cases st)
         (auto simp: isValidProgressData_def typeof_number typeof_string objectOrArray_iff)
  qed
qed (simp_all add: isValidProgressData_def)

lemma specSnapshot_valid: "specSnapshot d \<Longrightarrow> isValidProgressData d"
proof (cases d)
  case (JObj kvs)
  assume s: "specSnapshot d"
  from s JObj obtain st se where st: "map_of kvs ''stats'' = Some st" "specStats st"
    and se: "map_of kvs ''settings'' = Some se" "specSettings se"
    by (auto split: option.splits)
  from st(2) obtain sk where sk: "st = JObj sk" by (cases st) simp_all
  from se(2) obtain ek where ek: "se = JObj ek" by (cases se) simp_all
  from s JObj st sk have a: "isNum (map_of kvs ''version'')" "isArray (map_of kvs ''progress'')"
    "isNum (map_of sk ''streakDays'')" "isStr (map_of sk ''lastStudyDate'')"
    "objectOrArray (map_of sk ''dailyReviews'')"
    by (auto split: option.splits json.splits)
  show ?thesis
    unfolding isValidProgressData_iff using JObj st(1) sk se(1) ek a by simp
qed simp_all

lemma load_Some_iff:
  "load s = Some d \<longleftrightarrow> available s \<and> item s = Some (Text d) \<and> isValidProgressData d"
proof (cases "item s")
  case None
  then show ?thesis by (simp add: load_def isStorageAvailable_def)
next
  case (Some raw)
  then show ?thesis
    by (cases raw) (auto simp: load_def isStorageAvailable_def)
qed

text \<open>
  Claim C5, as amended. \<open>load\<close> returns the stored snapshot itself, unchanged, or null.
  It returns null unless the storage is available, the stored text parses and the value
  passes the checks of the top level: it is an object, \<open>version\<close> is a number,
  \<open>progress\<close> is an array, \<open>stats\<close> is an object with a number \<open>streakDays\<close>, a string
  \<open>lastStudyDate\<close> and a \<open>dailyReviews\<close> that is there and is no primitive value, and
  \<open>settings\<close> is there and is no primitive value; in particular a snapshot without
  \<open>stats.dailyReviews\<close> gives null. A stored snapshot that has these fields, with
  objects for \<open>dailyReviews\<close> and \<open>settings\<close>, is returned whatever the elements of
  \<open>progress\<close>, the values of \<open>dailyReviews\<close> and the fields of \<open>settings\<close> are; so is
  every snapshot of the full shape.
\<close>

theorem load_top_level_validation:
  "(load s = Some d \<longrightarrow>
      available s \<and> item s = Some (Text d)
    \<and> (\<exists>kvs stats. d = JObj kvs
          \<and> isNum (map_of kvs ''version'')
          \<and> isArray (map_of kvs ''progress'')
          \<and> map_of kvs ''stats'' = Some (JObj stats)
          \<and> isNum (map_of stats ''streakDays'')
          \<and> isStr (map_of stats ''lastStudyDate'')
          \<and> objectOrArray (map_of stats ''dailyReviews'')
          \<and> objectOrArray (map_of kvs ''settings'')))
   \<and> (\<forall>kvs stats days settings.
        available s \<and> item s = Some (Text d) \<and> d = JObj kvs
          \<and> isNum (map_of kvs ''version'')
          \<and> isArray (map_of kvs ''progress'')
          \<and> map_of kvs ''stats'' = Some (JObj stats)
          \<and> isNum (map_of stats ''streakDays'')
          \<and> isStr (map_of stats ''lastStudyDate'')
          \<and> map_of stats ''dailyReviews'' = Some (JObj days)
          \<and> map_of kvs ''settings'' = Some (JObj settings) \<longrightarrow>
        load s = Some d)
   \<and> (\<forall>kvs stats. item s = Some (Text (JObj kvs)) \<and> map_of kvs ''stats'' = Some (JObj stats)
          \<and> map_of stats ''dailyReviews'' = None \<longrightarrow> load s = None)
   \<and> (specSnapshot d \<and> available s \<and> item s = Some (Text d) \<longrightarrow> load s = Some d)"
proof -
  have A: "load s = Some d \<longrightarrow>
      available s \<and> item s = Some (Text d)
    \<and> (\<exists>kvs stats. d = JObj kvs
          \<and> isNum (map_of kvs ''version'')
          \<and> isArray (map_of kvs ''progress'')
          \<and> map_of kvs ''stats'' = Some (JObj stats)
          \<and> isNum (map_of stats ''streakDays'')
          \<and> isStr (map_of stats ''lastStudyDate'')
          \<and> objectOrArray (map_of stats ''dailyReviews'')
          \<and> objectOrArray (map_of kvs ''settings''))"
    unfolding load_Some_iff isValidProgressData_iff by (rule impI)
  have B: "\<forall>kvs stats days settings.
        available s \<and> item s = Some (Text d) \<and> d = JObj kvs
          \<and> isNum (map_of kvs ''version'')
          \<and> isArray (map_of kvs ''progress'')
          \<and> map_of kvs ''stats'' = Some (JObj stats)
          \<and> isNum (map_of stats ''streakDays'')
          \<and> isStr (map_of stats ''lastStudyDate'')
          \<and> map_of stats ''dailyReviews'' = Some (JObj days)
          \<and> map_of kvs ''settings'' = Some (JObj settings) \<longrightarrow>
        load s = Some d"
  proof (intro allI impI)
    fix kvs stats days settings
    assume h: "available s \<and> item s = Some (Text d) \<and> d = JObj kvs
          \<and> isNum (map_of kvs ''version'')
          \<and> isArray (map_of kvs ''progress'')
          \<and> map_of kvs ''stats'' = Some (JObj stats)
          \<and> isNum (map_of stats ''streakDays'')
          \<and> isStr (map_of stats ''lastStudyDate'')
          \<and> map_of stats ''dailyReviews'' = Some (JObj days)
          \<and> map_of kvs ''settings'' = Some (JObj settings)"
    then have "isValidProgressData d"
      unfolding isValidProgressData_iff by simp
    with h show "load s = Some d"
      by (simp add: load_Some_iff)
  qed
  have C: "\<forall>kvs stats. item s = Some (Text (JObj kvs)) \<and> map_of kvs ''stats'' = Some (JObj stats)
          \<and> map_of stats ''dailyReviews'' = None \<longrightarrow> load s = None"
  proof (intro allI impI)
    fix kvs stats
    assume h: "item s = Some (Text (JObj kvs)) \<and> map_of kvs ''stats'' = Some (JObj stats)
          \<and> map_of stats ''dailyReviews'' = None"
    then have "\<not> isValidProgressData (JObj kvs)"
      by (auto simp: isValidProgressData_iff)
    with h show "load s = None"
      by (simp add: load_def)
  qed
  have D: "specSnapshot d \<and> available s \<and> item s = Some (Text d) \<longrightarrow> load s = Some d"
    by (simp add: load_Some_iff specSnapshot_valid)
  show ?thesis by (intro conjI A B C D)
qed

text \<open>
  Claim C5 as stated fails: a stored snapshot whose progress list holds a number and a
  record without stage, due time and status, and whose settings lack the voice type, is
  returned by \<open>load\<close>, although it is not of the shape of a snapshot.
\<close>

theorem load_accepts_malformed_snapshot:
  "load (storageWith badSnapshot) = Some badSnapshot \<and> \<not> specSnapshot badSnapshot"
  by (simp add: load_def isStorageAvailable_def storageWith_def sampleStorage_def
        isValidProgressData_def badSnapshot_def)

text \<open>
  The theorem on a stored snapshot of the full shape, which is returned; on one
  without \<open>stats.dailyReviews\<close>, which is not; and on one with the fields of the top
  level and a malformed progress list, which is returned.
\<close>

theorem load_top_level_validation_witness:
  "load (storageWith goodSnapshot) = Some goodSnapshot
   \<and> specSnapshot goodSnapshot
   \<and> load (storageWith noDailyReviews) = None
   \<and> load (storageWith badSnapshot) = Some badSnapshot"
proof -
  have g: "specSnapshot goodSnapshot"
    by (simp add: goodSnapshot_def jsonOfProgress_def appleProgress_def isoDate_def digitValue_def
          DaysInMonth_def)
  have a: "available (storageWith goodSnapshot)"
    "item (storageWith goodSnapshot) = Some (Text goodSnapshot)"
    by (simp_all add: storageWith_def sampleStorage_def)
  have n: "item (storageWith noDailyReviews) = Some (Text (JObj
     [(''version'', JNum 1),
           (''progress'', JArr []),
           (''stats'', JObj [(''streakDays'', JNum 3), (''lastStudyDate'', JStr ''2026-01-11'')]),
           (''settings'', JObj [(''voiceType'', JStr ''en-GB'')])]))
     \<and> map_of [(''version'', JNum 1),
           (''progress'', JArr []),
           (''stats'', JObj [(''streakDays'', JNum 3), (''lastStudyDate'', JStr ''2026-01-11'')]),
           (''settings'', JObj [(''voiceType'', JStr ''en-GB'')])] ''stats''
         = Some (JObj [(''streakDays'', JNum 3), (''lastStudyDate'', JStr ''2026-01-11'')])
     \<and> map_of [(''streakDays'', JNum 3), (''lastStudyDate'', JStr ''2026-01-11'')] ''dailyReviews''
         = None"
    by (simp add: storageWith_def sampleStorage_def noDailyReviews_def)
  note A = load_top_level_validation [of "storageWith goodSnapshot" goodSnapshot,
      THEN conjunct2, THEN conjunct2, THEN conjunct2, rule_format]
  note B = load_top_level_validation [of "storageWith noDailyReviews" noDailyReviews,
      THEN conjunct2, THEN conjunct2, THEN conjunct1, rule_format, OF n]
  note C = load_top_level_validation [of "storageWith badSnapshot" badSnapshot,
      THEN conjunct2, THEN conjunct1, rule_format,
      of "[(''version'', JNum 1),
           (''progress'', JArr [JNum 7, JObj [(''id'', JStr ''2026-01-11_apple'')]]),
           (''stats'', JObj [(''streakDays'', JNum 3), (''lastStudyDate'', JStr ''2026-01-11''),
                             (''dailyReviews'', JObj [])]),
           (''settings'', JObj [])]"
         "[(''streakDays'', JNum 3), (''lastStudyDate'', JStr ''2026-01-11''),
           (''dailyReviews'', JObj [])]" "[]" "[]"]
  have c: "load (storageWith badSnapshot) = Some badSnapshot"
    by (rule C) (simp add: storageWith_def sampleStorage_def badSnapshot_def)
  from A g a B c show ?thesis by simp
qed















end
